theory Spec2Isabelle
  imports Main "HOL-Library.Sublist" "HOL-Library.AList"
begin

section \<open>JavaScript strings\<close>

text \<open>
  Strings are \<^typ>\<open>string\<close>, one \<^typ>\<open>char\<close> per UTF-16 code unit of the
  JavaScript string; the texts of this program (model output, error messages, JSON) are
  taken to be ASCII, so \<open>toLowerCase\<close> maps \<open>A\<close>..\<open>Z\<close> to \<open>a\<close>..\<open>z\<close> and leaves
  every other character alone.
\<close>

definition toLowerChar :: "char \<Rightarrow> char" where
  "toLowerChar c =
     (let n = (of_char c :: nat) in if 65 \<le> n \<and> n \<le> 90 then char_of (n + 32) else c)"

definition toLowerCase :: "string \<Rightarrow> string" where
  "toLowerCase s = map toLowerChar s"

text \<open>\<open>s.includes(pat)\<close>: \<open>pat\<close> occurs in \<open>s\<close> as a contiguous substring.\<close>

fun str_includes :: "string \<Rightarrow> string \<Rightarrow> bool" where
  "str_includes [] pat = (pat = [])"
| "str_includes (c # cs) pat = (prefix pat (c # cs) \<or> str_includes cs pat)"

text \<open>
  A template literal \<open>`${x}`\<close> of a property that holds a string or is missing:
  a missing property renders as \<open>undefined\<close>.
\<close>

fun tmpl :: "string option \<Rightarrow> string" where
  "tmpl None = ''undefined''"
| "tmpl (Some s) = s"

section \<open>Errors and their user-facing messages\<close>

text \<open>
  A thrown value as \<open>handleGeminiError\<close> reads it: \<open>error.type\<close>, \<open>error.error\<close>
  (with its own \<open>type\<close> and \<open>message\<close>) and \<open>error.message\<close>. A property that is
  missing is \<open>None\<close>. \<open>new Error(m)\<close> is the value with only \<open>message\<close> set.
\<close>

record inner_error =
  inner_type :: "string option"
  inner_message :: "string option"

record js_error =
  err_type :: "string option"
  err_error :: "inner_error option"
  err_message :: "string option"

definition Error :: "string \<Rightarrow> js_error" where
  "Error m = \<lparr>err_type = None, err_error = None, err_message = Some m\<rparr>"

text \<open>\<open>error.message?.toLowerCase().includes(term)\<close>: false when there is no message.\<close>

definition message_includes :: "js_error \<Rightarrow> string \<Rightarrow> bool" where
  "message_includes e term =
     (case err_message e of None \<Rightarrow> False | Some m \<Rightarrow> str_includes (toLowerCase m) term)"

definition handleGeminiError :: "js_error \<Rightarrow> string" where
  "handleGeminiError e =
     (case (if err_type e = Some ''error'' then err_error e else None) of
        Some inner \<Rightarrow>
          (if inner_type inner = Some ''OVERLOADED_ERROR'' then
             ''Gemini is currently experiencing high demand and is overloaded. Please wait a few minutes and try again.''
           else if inner_type inner = Some ''RATE_LIMIT_ERROR'' then
             ''You have exceeded the rate limit. Please wait a few minutes before making more requests.''
           else if inner_type inner = Some ''INVALID_REQUEST_ERROR'' then
             ''There was an issue with the request format. If this persists, please report it as a bug.''
           else ''Gemini API error: '' @ tmpl (inner_message inner))
      | None \<Rightarrow>
          (if message_includes e ''timeout'' then
             ''The request to Gemini timed out. Please try again.''
           else if message_includes e ''network'' then
             ''There was a network error connecting to Gemini. Please check your internet connection and try again.''
           else ''Error communicating with Gemini: '' @ tmpl (err_message e)))"

text \<open>The three messages \<open>handleGeminiError\<close> keeps for the structured error types.\<close>

definition specific_messages :: "string set" where
  "specific_messages =
     {''Gemini is currently experiencing high demand and is overloaded. Please wait a few minutes and try again.'',
      ''You have exceeded the rate limit. Please wait a few minutes before making more requests.'',
      ''There was an issue with the request format. If this persists, please report it as a bug.''}"

section \<open>Numbers as text, string positions\<close>

text \<open>
  \<open>String(n)\<close> of an integer, as a template literal renders a count or an index:
  decimal digits, a leading minus sign for a negative number.
\<close>

definition digit_char :: "nat \<Rightarrow> char" where
  "digit_char d = char_of (48 + d)"

function show_nat :: "nat \<Rightarrow> string" where
  "show_nat n = (if n < 10 then [digit_char n] else show_nat (n div 10) @ [digit_char (n mod 10)])"
  by pat_completeness auto
termination
  by (relation "measure (\<lambda>n. n)") auto

definition show_int :: "int \<Rightarrow> string" where
  "show_int i = (if i < 0 then CHR ''-'' # show_nat (nat (- i)) else show_nat (nat i))"

text \<open>\<open>indexOf\<close> and \<open>lastIndexOf\<close> of a character: \<open>-1\<close> when it does not occur.\<close>

fun indexOf :: "string \<Rightarrow> char \<Rightarrow> int" where
  "indexOf [] c = - 1"
| "indexOf (x # xs) c =
     (if x = c then 0 else (let i = indexOf xs c in if i = - 1 then - 1 else i + 1))"

definition lastIndexOf :: "string \<Rightarrow> char \<Rightarrow> int" where
  "lastIndexOf s c =
     (let i = indexOf (rev s) c in if i = - 1 then - 1 else int (length s) - 1 - i)"

text \<open>
  \<open>s.substring(a, b)\<close>: both positions are clamped to \<open>0..length\<close>, and swapped when
  the first is the larger one.
\<close>

definition substring :: "string \<Rightarrow> int \<Rightarrow> int \<Rightarrow> string" where
  "substring s a b =
     (let n = int (length s);
          a' = max 0 (min a n);
          b' = max 0 (min b n);
          lo = min a' b';
          hi = max a' b'
      in take (nat (hi - lo)) (drop (nat lo) s))"

section \<open>Events of a run\<close>

text \<open>
  What a run does besides returning: the calls of \<open>log(level, message)\<close>, the
  \<open>setTimeout\<close> delays it awaits (milliseconds), and the requests it sends: \<open>Attempt n\<close>
  is the generation request of \<open>callGemini\<close> at retry count \<open>n\<close>, \<open>Repair n\<close> the
  request of \<open>retryWithGemini\<close> at retry count \<open>n\<close>, \<open>Research n\<close> the use of the
  research provider at retry count \<open>n\<close>. Terminal output (\<open>console.error\<close>, the loading
  indicator, the dump of the error under \<open>CONFIG.debug\<close>) is left out.
\<close>

datatype event =
    Log string string
  | Wait nat
  | Attempt nat
  | Repair nat
  | Research nat

section \<open>Generating tasks from a PRD: the retry loop\<close>

text \<open>
  The test of \<open>callGemini\<close>'s catch block on the error it caught.
\<close>

definition retryable :: "js_error \<Rightarrow> bool" where
  "retryable e =
     (message_includes e ''overloaded'' \<or> message_includes e ''rate limit'' \<or>
      message_includes e ''timeout'' \<or> message_includes e ''network'')"

text \<open>
  \<open>callGemini(prdContent, prdPath, numTasks, retryCount)\<close>. Its try block builds the
  prompt and awaits \<open>handleStreamingRequest\<close>; \<open>hsr n\<close> is how the body of the try
  block ends in the attempt made at retry count \<open>n\<close>: \<open>Inl\<close> the error the catch
  block receives, \<open>Inr\<close> the value returned. The result is the events of the run and
  how \<open>callGemini\<close> settles.
\<close>

function callGemini :: "(nat \<Rightarrow> js_error + 'r) \<Rightarrow> nat \<Rightarrow> event list \<times> (js_error + 'r)" where
  "callGemini hsr retryCount =
     (case hsr retryCount of
        Inr result \<Rightarrow> ([Log ''info'' ''Calling Gemini...'', Attempt retryCount], Inr result)
      | Inl error \<Rightarrow>
          (let userMessage = handleGeminiError error;
               caught = [Log ''info'' ''Calling Gemini...'', Attempt retryCount,
                         Log ''error'' userMessage]
           in if retryCount < 2 \<and> retryable error then
                (let waitTime = (retryCount + 1) * 5000;
                     again = callGemini hsr (retryCount + 1)
                 in (caught @
                     [Log ''info'' (''Waiting '' @ show_nat (waitTime div 1000) @
                        '' seconds before retry '' @ show_nat (retryCount + 1) @ ''/2...''),
                      Wait waitTime] @ fst again,
                     snd again))
              else (caught, Inl (Error userMessage))))"
  by pat_completeness auto
termination
  by (relation "measure (\<lambda>(hsr, retryCount). 2 - retryCount)") auto

text \<open>The delays and the generation requests of a run, in order.\<close>

fun waits :: "event list \<Rightarrow> nat list" where
  "waits [] = []"
| "waits (Wait ms # evs) = ms # waits evs"
| "waits (_ # evs) = waits evs"

fun attempts :: "event list \<Rightarrow> nat list" where
  "attempts [] = []"
| "attempts (Attempt n # evs) = n # attempts evs"
| "attempts (_ # evs) = attempts evs"

section \<open>JSON values\<close>

text \<open>
  What \<open>JSON.parse\<close> returns. An object is the list of its entries, read by key
  (\<open>obj.key\<close> is \<open>map_of entries key\<close>, \<open>None\<close> for \<open>undefined\<close>); numbers are
  integers, which is what the ids, counts and dependency references of this program
  are. \<open>JSON.parse\<close> itself is a parameter \<open>parse\<close> of the functions that call it:
  \<open>Inl m\<close> when it throws a \<open>SyntaxError\<close> with message \<open>m\<close>, \<open>Inr v\<close> when it
  returns \<open>v\<close>.
\<close>

datatype json =
    JNull
  | JBool bool
  | JNum int
  | JStr string
  | JArr "json list"
  | JObj "(string \<times> json) list"

type_synonym parser = "string \<Rightarrow> string + json"

section \<open>Processing the response of the PRD generation\<close>

text \<open>
  How a call ends: it returns a value, it throws, or (an \<open>async\<close> function) it returns a
  promise that is later rejected (\<open>Inl\<close>) or fulfilled (\<open>Inr\<close>). A \<open>try\<close> block
  around a call catches what the call throws, not the rejection of a promise it returns
  without \<open>await\<close>.
\<close>

datatype 'a completion =
    Returned 'a
  | Threw js_error
  | Promised "js_error + 'a"

text \<open>
  The inner \<open>try\<close> block of \<open>processGeminiResponse\<close> after \<open>JSON.parse\<close>: the check
  \<open>!result.tasks || !Array.isArray(result.tasks)\<close>. \<open>Inl m\<close> is the message of the error
  thrown, \<open>Inr tasks\<close> the tasks array of an accepted result. Reading \<open>.tasks\<close> of
  \<open>null\<close> throws a \<open>TypeError\<close> (the message is the one of Node.js); of any other
  value that is not an object it gives \<open>undefined\<close>.
\<close>

fun tasks_array :: "json \<Rightarrow> string + json list" where
  "tasks_array (JObj entries) =
     (case map_of entries ''tasks'' of
        Some (JArr tasks) \<Rightarrow> Inr tasks
      | _ \<Rightarrow> Inl ''Response does not contain a tasks array'')"
| "tasks_array JNull = Inl ''Cannot read properties of null (reading 'tasks')''"
| "tasks_array _ = Inl ''Response does not contain a tasks array''"

text \<open>
  \<open>JSON.parse(jsonContent)\<close> followed by that check: \<open>Inl m\<close> is the message of the
  error the inner \<open>catch\<close> receives, \<open>Inr (result, tasks)\<close> an accepted result with its
  tasks array.
\<close>

definition parse_and_check :: "parser \<Rightarrow> string \<Rightarrow> string + (json \<times> json list)" where
  "parse_and_check parse jsonContent =
     (case parse jsonContent of
        Inl m \<Rightarrow> Inl m
      | Inr result \<Rightarrow>
          (case tasks_array result of
             Inl m \<Rightarrow> Inl m
           | Inr tasks \<Rightarrow> Inr (result, tasks)))"

definition cleanupJsonResponse :: "string \<Rightarrow> string" where
  "cleanupJsonResponse content =
     (let jsonStart = indexOf content CHR ''{'';
          jsonEnd = lastIndexOf content CHR ''}''
      in if jsonStart = - 1 \<or> jsonEnd = - 1 then content
         else substring content jsonStart (jsonEnd + 1))"

text \<open>
  \<open>processGeminiResponse(textContent, numTasks, retryCount, prompt, prdPath)\<close> and
  \<open>retryWithGemini(problemContent, numTasks, retryCount, originalPrompt, prdPath)\<close>.
  The prompt and the path only reach the text of the repair prompt and are left out.
  \<open>gemini n problemContent\<close> is how the \<open>generateContent\<close> request of
  \<open>retryWithGemini\<close> at retry count \<open>n\<close> ends: \<open>Inl\<close> the error thrown by the request
  or by reading its text, \<open>Inr\<close> the text of the response.

  In \<open>processGeminiResponse\<close>, \<open>tried\<close> is the outer \<open>try\<close> block and the \<open>case\<close> on it
  the outer \<open>catch\<close>; the inner \<open>catch\<close> is the \<open>Inl\<close> branch of the parse and check.
\<close>

function processGeminiResponse ::
    "parser \<Rightarrow> (nat \<Rightarrow> string \<Rightarrow> js_error + string) \<Rightarrow> string \<Rightarrow> int \<Rightarrow> nat
       \<Rightarrow> event list \<times> json completion"
  and retryWithGemini ::
    "parser \<Rightarrow> (nat \<Rightarrow> string \<Rightarrow> js_error + string) \<Rightarrow> string \<Rightarrow> int \<Rightarrow> nat
       \<Rightarrow> event list \<times> json completion"
where
  "processGeminiResponse parse gemini textContent numTasks retryCount =
     (let jsonStart = indexOf textContent CHR ''{'';
          jsonEnd = lastIndexOf textContent CHR ''}'';
          tried =
            (if jsonStart = - 1 \<or> jsonEnd = - 1 then
               ([], Threw (Error ''No valid JSON found in the response''))
             else
               (case parse_and_check parse (substring textContent jsonStart (jsonEnd + 1)) of
                  Inr (result, tasks) \<Rightarrow>
                    ((if int (length tasks) \<noteq> numTasks then
                        [Log ''warn'' (''Expected '' @ show_int numTasks @ '' tasks, but got '' @
                           show_nat (length tasks))]
                      else []),
                     Returned result)
                | Inl m \<Rightarrow>
                    (if retryCount < 3 then
                       (let cleanedContent = cleanupJsonResponse textContent;
                            again = processGeminiResponse parse gemini cleanedContent numTasks
                                      (retryCount + 1)
                        in ([Log ''error'' (''Error parsing JSON: '' @ m),
                             Log ''info'' (''Retrying JSON parsing with cleanup attempt '' @
                               show_nat (retryCount + 1) @ ''/3'')] @ fst again,
                            snd again))
                     else
                       ([Log ''error'' (''Error parsing JSON: '' @ m)],
                        Threw (Error ''Failed to parse JSON response after multiple attempts'')))))
      in case snd tried of
           Threw error \<Rightarrow>
             (if retryCount < 2 then
                (let fixed = retryWithGemini parse gemini textContent numTasks (retryCount + 1)
                 in (fst tried @
                     [Log ''error'' (''Error processing response: '' @ tmpl (err_message error)),
                      Log ''info'' (''Retrying with Gemini to fix the response, attempt '' @
                        show_nat (retryCount + 1) @ ''/2'')] @ fst fixed,
                     snd fixed))
              else
                (fst tried @
                 [Log ''error'' (''Error processing response: '' @ tmpl (err_message error))],
                 Threw (Error (''Failed to process response: '' @ tmpl (err_message error)))))
         | _ \<Rightarrow> tried)"
| "retryWithGemini parse gemini problemContent numTasks retryCount =
     (case gemini retryCount problemContent of
        Inl error \<Rightarrow>
          ([Log ''info'' ''Asking Gemini to fix the JSON response...'', Repair retryCount,
            Log ''error'' (handleGeminiError error)],
           Promised (Inl (Error (''Failed to fix JSON response: '' @ tmpl (err_message error)))))
      | Inr fixedContent \<Rightarrow>
          (let processed = processGeminiResponse parse gemini fixedContent numTasks retryCount
           in case snd processed of
                Threw error \<Rightarrow>
                  ([Log ''info'' ''Asking Gemini to fix the JSON response...'', Repair retryCount] @
                   fst processed @ [Log ''error'' (handleGeminiError error)],
                   Promised (Inl (Error (''Failed to fix JSON response: '' @
                      tmpl (err_message error)))))
              | Returned result \<Rightarrow>
                  ([Log ''info'' ''Asking Gemini to fix the JSON response...'', Repair retryCount] @
                   fst processed,
                   Promised (Inr result))
              | Promised p \<Rightarrow>
                  ([Log ''info'' ''Asking Gemini to fix the JSON response...'', Repair retryCount] @
                   fst processed,
                   Promised p)))"
  by pat_completeness auto
termination
  by (relation "measure (\<lambda>x. case x of
         Inl (parse, gemini, textContent, numTasks, retryCount) \<Rightarrow> 2 * (4 - retryCount)
       | Inr (parse, gemini, problemContent, numTasks, retryCount) \<Rightarrow> 2 * (4 - retryCount) + 1)")
     auto

text \<open>
  \<open>handleStreamingRequest(prompt, prdPath, numTasks, maxTokens)\<close>, as \<open>callGemini\<close>
  awaits it. \<open>stream\<close> is how the streaming request and the reading of its chunks end:
  \<open>Inl\<close> the error thrown, \<open>Inr\<close> the accumulated text. A promise returned by
  \<open>processGeminiResponse\<close> is returned as it is; its rejection is not caught here.
\<close>

definition handleStreamingRequest ::
    "parser \<Rightarrow> (nat \<Rightarrow> string \<Rightarrow> js_error + string) \<Rightarrow> js_error + string \<Rightarrow> int
       \<Rightarrow> event list \<times> (js_error + json)" where
  "handleStreamingRequest parse gemini stream numTasks =
     (case stream of
        Inl error \<Rightarrow>
          ([Log ''error'' (handleGeminiError error)], Inl (Error (handleGeminiError error)))
      | Inr responseText \<Rightarrow>
          (let processed = processGeminiResponse parse gemini responseText numTasks 0
           in case snd processed of
                Threw error \<Rightarrow>
                  ([Log ''info'' ''Completed streaming response from Gemini API!''] @
                   fst processed @ [Log ''error'' (handleGeminiError error)],
                   Inl (Error (handleGeminiError error)))
              | Returned result \<Rightarrow>
                  ([Log ''info'' ''Completed streaming response from Gemini API!''] @
                   fst processed,
                   Inr result)
              | Promised p \<Rightarrow>
                  ([Log ''info'' ''Completed streaming response from Gemini API!''] @
                   fst processed,
                   p)))"

text \<open>
  \<open>callGemini\<close> from retry count 0 as the program runs it: the body of its try block
  ends as the awaited \<open>handleStreamingRequest\<close> does, and \<open>stream n\<close> is how the
  streaming request of the attempt at retry count \<open>n\<close> ends. The events are those of
  \<open>callGemini\<close> itself.
\<close>

definition callGemini_streaming ::
    "parser \<Rightarrow> (nat \<Rightarrow> string \<Rightarrow> js_error + string) \<Rightarrow> (nat \<Rightarrow> js_error + string) \<Rightarrow> int
       \<Rightarrow> event list \<times> (js_error + json)" where
  "callGemini_streaming parse gemini stream numTasks =
     callGemini
       (\<lambda>retryCount. snd (handleStreamingRequest parse gemini (stream retryCount) numTasks)) 0"

text \<open>The repair requests and the cleanup attempts of a run, in order.\<close>

fun repairs :: "event list \<Rightarrow> nat list" where
  "repairs [] = []"
| "repairs (Repair n # evs) = n # repairs evs"
| "repairs (_ # evs) = repairs evs"

fun cleanups :: "event list \<Rightarrow> string list" where
  "cleanups [] = []"
| "cleanups (Log level m # evs) =
     (if level = ''info'' \<and> prefix ''Retrying JSON parsing with cleanup attempt '' m
      then m # cleanups evs else cleanups evs)"
| "cleanups (_ # evs) = cleanups evs"

section \<open>The research provider\<close>

text \<open>
  \<open>String(v)\<close> of a JSON value, as a template literal renders it: an array joins its
  elements with commas (\<open>null\<close> as the empty text), an object is \<open>[object Object]\<close>.
  A number is rendered by its decimal digits, which is what JavaScript prints for an
  integer of magnitude below \<open>10^21\<close> (from there on it prints an exponent); the ids
  rendered here are task ids, far below that.
\<close>

fun join_commas :: "string list \<Rightarrow> string" where
  "join_commas [] = []"
| "join_commas [x] = x"
| "join_commas (x # y # ys) = x @ '','' @ join_commas (y # ys)"

fun String_of :: "json \<Rightarrow> string" where
  "String_of JNull = ''null''"
| "String_of (JBool b) = (if b then ''true'' else ''false'')"
| "String_of (JNum n) = show_int n"
| "String_of (JStr s) = s"
| "String_of (JArr xs) = join_commas (map (\<lambda>x. if x = JNull then [] else String_of x) xs)"
| "String_of (JObj entries) = ''[object Object]''"

text \<open>The task a caller passes: \<open>taskData.id\<close>, \<open>.title\<close>, \<open>.description\<close>, \<open>.details\<close>.\<close>

record task_data =
  task_id :: json
  task_title :: string
  task_description :: string
  task_details :: "string option"

text \<open>
  The lazily created client: \<open>perplexity\<close> is \<open>None\<close> until the first successful
  \<open>getPerplexityClient\<close>, which needs a non-empty \<open>PERPLEXITY_API_KEY\<close>
  (\<open>key\<close>, \<open>None\<close> when the variable is not set). The result is what the call throws or
  returns, and the new \<open>perplexity\<close>.
\<close>

record client =
  apiKey :: string
  baseURL :: string

definition getPerplexityClient ::
    "string option \<Rightarrow> client option \<Rightarrow> (js_error + client) \<times> client option" where
  "getPerplexityClient key perplexity =
     (case perplexity of
        Some c \<Rightarrow> (Inr c, perplexity)
      | None \<Rightarrow>
          (if key = None \<or> key = Some [] then
             (Inl (Error ''PERPLEXITY_API_KEY environment variable is missing. Set it to use research-backed features.''),
              None)
           else
             (let c = \<lparr>apiKey = the key, baseURL = ''https://api.perplexity.ai''\<rparr>
              in (Inr c, Some c))))"

text \<open>
  \<open>refineTaskWithGemini\<close> and \<open>expandTaskWithGemini\<close>, with \<open>generated\<close> how their
  \<open>generateContent\<close> request ends (\<open>Inl\<close> the error thrown, \<open>Inr\<close> the text).
\<close>

definition refineTaskWithGemini ::
    "task_data \<Rightarrow> js_error + string \<Rightarrow> event list \<times> (js_error + string)" where
  "refineTaskWithGemini taskData generated =
     (case generated of
        Inr response \<Rightarrow>
          ([Log ''info'' (''Refining task details for \"'' @ task_title taskData @
              ''\" with Gemini based on research...'')],
           Inr response)
      | Inl error \<Rightarrow>
          ([Log ''info'' (''Refining task details for \"'' @ task_title taskData @
              ''\" with Gemini based on research...''),
            Log ''error'' (''Error refining task: '' @ tmpl (err_message error))],
           Inl error))"

definition expandTaskWithGemini ::
    "task_data \<Rightarrow> js_error + string \<Rightarrow> event list \<times> (js_error + string)" where
  "expandTaskWithGemini taskData generated =
     (case generated of
        Inr response \<Rightarrow>
          ([Log ''info'' (''Expanding task \"'' @ task_title taskData @ ''\" with Gemini...'')],
           Inr response)
      | Inl error \<Rightarrow>
          ([Log ''info'' (''Expanding task \"'' @ task_title taskData @ ''\" with Gemini...''),
            Log ''error'' (handleGeminiError error)],
           Inl (Error (handleGeminiError error))))"

text \<open>
  \<open>expandTaskWithResearch(taskData, prompt, retryCount)\<close>. \<open>research n\<close> is how the
  chat completion of the attempt at retry count \<open>n\<close> ends (the error thrown by the
  request or by reading \<open>choices[0].message.content\<close>, or that content), \<open>refine n\<close>
  how the \<open>generateContent\<close> request of \<open>refineTaskWithGemini\<close> ends in that attempt,
  given the research results, and \<open>expand\<close> how the request of the fallback
  \<open>expandTaskWithGemini\<close> ends. \<open>perplexityModel\<close> is \<open>CONFIG.perplexityModel\<close>. The
  result is the events, what the call throws or returns, and the new \<open>perplexity\<close>.
\<close>

function expandTaskWithResearch ::
    "string option \<Rightarrow> string option \<Rightarrow> (nat \<Rightarrow> js_error + string)
       \<Rightarrow> (nat \<Rightarrow> string \<Rightarrow> js_error + string) \<Rightarrow> js_error + string
       \<Rightarrow> task_data \<Rightarrow> client option \<Rightarrow> nat
       \<Rightarrow> event list \<times> (js_error + string) \<times> client option" where
  "expandTaskWithResearch key perplexityModel research refine expand taskData perplexity retryCount =
     (let got = getPerplexityClient key perplexity;
          model = (case perplexityModel of
                     None \<Rightarrow> ''sonar-medium-online''
                   | Some m \<Rightarrow> if m = [] then ''sonar-medium-online'' else m);
          tried =
            (case fst got of
               Inl error \<Rightarrow> ([Research retryCount], Inl error)
             | Inr perplexityClient \<Rightarrow>
                 (case research retryCount of
                    Inl error \<Rightarrow>
                      ([Research retryCount,
                        Log ''info'' (''Researching task \"'' @ task_title taskData @
                          ''\" with Perplexity AI (model: '' @ model @ '')...'')],
                       Inl error)
                  | Inr researchResults \<Rightarrow>
                      (let refined = refineTaskWithGemini taskData
                                       (refine retryCount researchResults)
                       in ([Research retryCount,
                            Log ''info'' (''Researching task \"'' @ task_title taskData @
                              ''\" with Perplexity AI (model: '' @ model @ '')...'')] @
                           fst refined,
                           snd refined))))
      in case snd tried of
           Inr response \<Rightarrow> (fst tried, Inr response, snd got)
         | Inl error \<Rightarrow>
             (if retryCount < 2 then
                (let waitTime = (retryCount + 1) * 5000;
                     again = expandTaskWithResearch key perplexityModel research refine expand
                               taskData (snd got) (retryCount + 1)
                 in (fst tried @
                     [Log ''error'' (''Error in research: '' @ tmpl (err_message error)),
                      Log ''info'' (''Waiting '' @ show_nat (waitTime div 1000) @
                        '' seconds before retry '' @ show_nat (retryCount + 1) @ ''/2...''),
                      Wait waitTime] @ fst again,
                     snd again))
              else
                (let fallback = expandTaskWithGemini taskData expand
                 in (fst tried @
                     [Log ''error'' (''Error in research: '' @ tmpl (err_message error)),
                      Log ''info'' ''Falling back to expansion without research...''] @
                     fst fallback,
                     snd fallback, snd got))))"
  by pat_completeness auto
termination
  by (relation "measure (\<lambda>(key, perplexityModel, research, refine, expand, taskData,
                           perplexity, retryCount). 2 - retryCount)") auto

text \<open>The uses of the research provider in a run, by retry count.\<close>

fun researches :: "event list \<Rightarrow> nat list" where
  "researches [] = []"
| "researches (Research n # evs) = n # researches evs"
| "researches (_ # evs) = researches evs"

section \<open>Finding the JSON in a response\<close>

text \<open>
  The regular expressions of the source, as lists of the pieces they are made of: a
  literal text, an optional literal text (\<open>(?:json)?\<close>), a greedy repetition of one
  character class (\<open>\s*\<close>, and \<open>.*\<close> under the \<open>s\<close> flag), and the two ends of the
  capture group. \<open>rx_run\<close> matches the pieces at the start of a text and backtracks as
  the JavaScript engine does: the optional text is tried first with the text, a
  repetition first with the most characters. It returns the positions where the group
  starts and ends.
\<close>

datatype rx =
    Lit string
  | Opt string
  | Star "char \<Rightarrow> bool"
  | Open
  | Close

fun first_some :: "'a option list \<Rightarrow> 'a option" where
  "first_some [] = None"
| "first_some (Some x # xs) = Some x"
| "first_some (None # xs) = first_some xs"

fun rx_run :: "rx list \<Rightarrow> string \<Rightarrow> nat \<Rightarrow> nat \<times> nat \<Rightarrow> (nat \<times> nat) option" where
  "rx_run [] s pos grp = Some grp"
| "rx_run (Lit l # rest) s pos grp =
     (if prefix l s then rx_run rest (drop (length l) s) (pos + length l) grp else None)"
| "rx_run (Opt l # rest) s pos grp =
     (case (if prefix l s then rx_run rest (drop (length l) s) (pos + length l) grp else None) of
        Some g \<Rightarrow> Some g
      | None \<Rightarrow> rx_run rest s pos grp)"
| "rx_run (Star p # rest) s pos grp =
     first_some (map (\<lambda>k. rx_run rest (drop k s) (pos + k) grp)
                     (rev [0..<Suc (length (takeWhile p s))]))"
| "rx_run (Open # rest) s pos grp = rx_run rest s pos (pos, snd grp)"
| "rx_run (Close # rest) s pos grp = rx_run rest s pos (fst grp, pos)"

text \<open>
  \<open>s.match(r)\<close> for a regular expression without the \<open>g\<close> flag: the leftmost match;
  the result is the text of the capture group, \<open>None\<close> for \<open>null\<close>.
\<close>

definition rx_match :: "rx list \<Rightarrow> string \<Rightarrow> string option" where
  "rx_match r s =
     (case first_some (map (\<lambda>i. rx_run r (drop i s) i (0, 0)) [0..<Suc (length s)]) of
        None \<Rightarrow> None
      | Some (a, b) \<Rightarrow> Some (take (b - a) (drop a s)))"

text \<open>
  \<open>\s\<close> on the characters a text holds here (codes below 256): tab, line feed,
  vertical tab, form feed, carriage return, space, and the no-break space \<open>U+00A0\<close>.
\<close>

definition is_space :: "char \<Rightarrow> bool" where
  "is_space c = ((of_char c :: nat) \<in> {9, 10, 11, 12, 13, 32, 160})"

definition any_char :: "char \<Rightarrow> bool" where
  "any_char c = True"

definition fenced_array :: "rx list" where
  "fenced_array =
     [Lit ''```'', Opt ''json'', Star is_space,
      Open, Lit ''['', Star is_space, Lit ''{'', Star any_char, Lit ''}'', Star is_space, Lit '']'', Close,
      Star is_space, Lit ''```'']"

definition bare_array :: "rx list" where
  "bare_array =
     [Open, Lit ''['', Star is_space, Lit ''{'', Star any_char, Lit ''}'', Star is_space, Lit '']'', Close]"

definition fenced_object :: "rx list" where
  "fenced_object =
     [Lit ''```'', Opt ''json'', Star is_space,
      Open, Lit ''{'', Star any_char, Lit ''}'', Close,
      Star is_space, Lit ''```'']"

definition bare_object :: "rx list" where
  "bare_object = [Open, Lit ''{'', Star any_char, Lit ''}'', Close]"

text \<open>
  \<open>jsonMatch = response.match(fenced) || response.match(bare)\<close> and
  \<open>jsonText = jsonMatch ? jsonMatch[1] : response\<close>.
\<close>

definition jsonText :: "rx list \<Rightarrow> rx list \<Rightarrow> string \<Rightarrow> string" where
  "jsonText fenced bare response =
     (case rx_match fenced response of
        Some g \<Rightarrow> g
      | None \<Rightarrow> (case rx_match bare response of Some g \<Rightarrow> g | None \<Rightarrow> response))"

section \<open>Subtasks of a task\<close>

text \<open>
  The own enumerable properties an object spread \<open>{...v}\<close> copies: the entries of an
  object, the elements of an array and the characters of a string under their indices,
  nothing for a number, a boolean or \<open>null\<close>.
\<close>

fun spread :: "json \<Rightarrow> (string \<times> json) list" where
  "spread (JObj entries) = entries"
| "spread (JArr xs) = zip (map show_nat [0..<length xs]) xs"
| "spread (JStr s) = zip (map show_nat [0..<length s]) (map (\<lambda>c. JStr [c]) s)"
| "spread _ = []"

text \<open>
  The callback of \<open>subtasksJson.map\<close>: \<open>{...subtask, id: `${parentTaskId}.${index + 1}`}\<close>,
  and the map itself.
\<close>

definition with_id :: "json \<Rightarrow> nat \<Rightarrow> json \<Rightarrow> json" where
  "with_id parentTaskId index subtask =
     JObj (AList.update ''id'' (JStr (String_of parentTaskId @ ''.'' @ show_nat (index + 1)))
             (spread subtask))"

definition number_subtasks :: "json \<Rightarrow> json list \<Rightarrow> json list" where
  "number_subtasks parentTaskId subtasksJson =
     map (\<lambda>(index, subtask). with_id parentTaskId index subtask) (List.enumerate 0 subtasksJson)"

text \<open>
  The optional research step of \<open>createSubtasksWithGemini\<close> and
  \<open>analyzeTaskComplexity\<close>: \<open>research\<close> is \<open>None\<close> when \<open>useResearch\<close> is false, and
  else how the awaited \<open>expandTaskWithResearch\<close> settles. Its text only reaches the
  prompt.
\<close>

definition research_step :: "string \<Rightarrow> (js_error + string) option \<Rightarrow> event list" where
  "research_step purpose research =
     (case research of
        None \<Rightarrow> []
      | Some (Inr researchInsights) \<Rightarrow>
          [Log ''info'' (''Gathering research to inform '' @ purpose @ ''...''),
           Log ''info'' ''Research completed successfully'']
      | Some (Inl error) \<Rightarrow>
          [Log ''info'' (''Gathering research to inform '' @ purpose @ ''...''),
           Log ''warn'' (''Research failed, continuing without it: '' @ tmpl (err_message error))])"

text \<open>
  \<open>fixSubtasksJson(problematicJson, parentTaskId, numSubtasks)\<close>. \<open>repair problematicJson\<close>
  is how its \<open>generateContent\<close> request ends. The inner \<open>catch\<close> throws into the outer
  one, which rethrows the user message.
\<close>

definition fixSubtasksJson ::
    "parser \<Rightarrow> (string \<Rightarrow> js_error + string) \<Rightarrow> string \<Rightarrow> json \<Rightarrow> int
       \<Rightarrow> event list \<times> (js_error + json list)" where
  "fixSubtasksJson parse repair problematicJson parentTaskId numSubtasks =
     (case repair problematicJson of
        Inl error \<Rightarrow>
          ([Log ''info'' ''Attempting to fix malformed subtasks JSON...'',
            Log ''error'' (handleGeminiError error)],
           Inl (Error (handleGeminiError error)))
      | Inr response \<Rightarrow>
          (case (case parse (jsonText fenced_array bare_array response) of
                   Inl m \<Rightarrow> Inl m
                 | Inr (JArr subtasksJson) \<Rightarrow> Inr subtasksJson
                 | Inr _ \<Rightarrow> Inl ''Fixed response is not an array'') of
             Inr subtasksJson \<Rightarrow>
               ([Log ''info'' ''Attempting to fix malformed subtasks JSON...''],
                Inr (number_subtasks parentTaskId subtasksJson))
           | Inl m \<Rightarrow>
               ([Log ''info'' ''Attempting to fix malformed subtasks JSON...'',
                 Log ''error'' (''Error parsing fixed subtasks JSON: '' @ m),
                 Log ''error'' (handleGeminiError (Error ''Failed to fix subtasks JSON after retry''))],
                Inl (Error (handleGeminiError (Error ''Failed to fix subtasks JSON after retry''))))))"

text \<open>
  \<open>createSubtasksWithGemini(taskData, numSubtasks, prompt, useResearch)\<close>.
  \<open>generated\<close> is how its \<open>generateContent\<close> request ends.
\<close>

definition createSubtasksWithGemini ::
    "parser \<Rightarrow> (js_error + string) option \<Rightarrow> js_error + string
       \<Rightarrow> (string \<Rightarrow> js_error + string) \<Rightarrow> task_data \<Rightarrow> int
       \<Rightarrow> event list \<times> (js_error + json list)" where
  "createSubtasksWithGemini parse research generated repair taskData numSubtasks =
     (let started =
            [Log ''info'' (''Creating '' @ show_int numSubtasks @ '' subtasks for task '' @
               String_of (task_id taskData) @ '': \"'' @ task_title taskData @ ''\"...'')] @
            research_step ''subtask creation'' research
      in case generated of
           Inl error \<Rightarrow>
             (started @ [Log ''error'' (handleGeminiError error)],
              Inl (Error (handleGeminiError error)))
         | Inr response \<Rightarrow>
             (case (case parse (jsonText fenced_array bare_array response) of
                      Inl m \<Rightarrow> Inl m
                    | Inr (JArr subtasksJson) \<Rightarrow> Inr subtasksJson
                    | Inr _ \<Rightarrow> Inl ''Response is not an array'') of
                Inr subtasksJson \<Rightarrow>
                  (started @
                   (if int (length subtasksJson) \<noteq> numSubtasks then
                      [Log ''warn'' (''Expected '' @ show_int numSubtasks @ '' subtasks, but got '' @
                         show_nat (length subtasksJson))]
                    else []),
                   Inr (number_subtasks (task_id taskData) subtasksJson))
              | Inl m \<Rightarrow>
                  (let fixed = fixSubtasksJson parse repair response (task_id taskData) numSubtasks
                   in case snd fixed of
                        Inr subtasks \<Rightarrow>
                          (started @ [Log ''error'' (''Error parsing subtasks JSON: '' @ m)] @
                           fst fixed,
                           Inr subtasks)
                      | Inl error \<Rightarrow>
                          (started @ [Log ''error'' (''Error parsing subtasks JSON: '' @ m)] @
                           fst fixed @ [Log ''error'' (handleGeminiError error)],
                           Inl (Error (handleGeminiError error))))))"

text \<open>The messages logged at level \<open>warn\<close> in a run, in order.\<close>

fun warnings :: "event list \<Rightarrow> string list" where
  "warnings [] = []"
| "warnings (Log level m # evs) = (if level = ''warn'' then m # warnings evs else warnings evs)"
| "warnings (_ # evs) = warnings evs"

section \<open>Complexity of a task\<close>

text \<open>
  The object literal \<open>{ taskId: taskData.id, ...complexityData }\<close>: the properties are
  written in this order, a later one of the same name replacing the value of the
  earlier one.
\<close>

definition assign :: "(string \<times> json) list \<Rightarrow> (string \<times> json) list \<Rightarrow> (string \<times> json) list" where
  "assign target source = foldl (\<lambda>acc (k, v). AList.update k v acc) target source"

text \<open>
  \<open>analyzeTaskComplexity(taskData, useResearch)\<close>. \<open>generated\<close> is how its
  \<open>generateContent\<close> request ends.
\<close>

definition analyzeTaskComplexity ::
    "parser \<Rightarrow> (js_error + string) option \<Rightarrow> js_error + string \<Rightarrow> task_data
       \<Rightarrow> event list \<times> (js_error + json)" where
  "analyzeTaskComplexity parse research generated taskData =
     (let started =
            [Log ''info'' (''Analyzing complexity of task '' @ String_of (task_id taskData) @
               '': \"'' @ task_title taskData @ ''\"...'')] @
            research_step ''complexity analysis'' research
      in case generated of
           Inl error \<Rightarrow>
             (started @ [Log ''error'' (handleGeminiError error)],
              Inl (Error (handleGeminiError error)))
         | Inr response \<Rightarrow>
             (case parse (jsonText fenced_object bare_object response) of
                Inr complexityData \<Rightarrow>
                  (started,
                   Inr (JObj (assign [(''taskId'', task_id taskData)] (spread complexityData))))
              | Inl m \<Rightarrow>
                  (started @
                   [Log ''error'' (''Error parsing complexity JSON: '' @ m),
                    Log ''error'' (handleGeminiError (Error ''Failed to parse complexity analysis''))],
                   Inl (Error (handleGeminiError (Error ''Failed to parse complexity analysis''))))))"

section \<open>The free-standing subtask parser\<close>

text \<open>
  Modelled from the spec: \<open>parseSubtasksFromText(text, startId, numSubtasks,
  parentTaskId)\<close> and its helpers. The unit tests import it from
  \<open>scripts/modules/ai-services.js\<close>, and the module in this repository does not
  define it; the definitions of this section follow section 4.4 of the spec (and 4.3
  for the bracket scan).
\<close>

text \<open>
  Modelled from the spec: the bracket scan for an array. First a fenced block (a code
  fence, optionally tagged \<open>json\<close>, around \<open>[\<close> ... \<open>]\<close>), else the widest text from
  the first \<open>[\<close> to the last \<open>]\<close>; \<open>None\<close> when there is no such pair.
\<close>

definition fenced_brackets :: "rx list" where
  "fenced_brackets =
     [Lit ''```'', Opt ''json'', Star is_space,
      Open, Lit ''['', Star any_char, Lit '']'', Close,
      Star is_space, Lit ''```'']"

definition widest_brackets :: "rx list" where
  "widest_brackets = [Open, Lit ''['', Star any_char, Lit '']'', Close]"

definition locate_array :: "string \<Rightarrow> string option" where
  "locate_array s =
     (case rx_match fenced_brackets s of
        Some g \<Rightarrow> Some g
      | None \<Rightarrow> rx_match widest_brackets s)"

text \<open>
  Modelled from the spec: the placeholder subtask number \<open>i\<close> (from 0), and the
  \<open>numSubtasks\<close> placeholders of the fallback.
\<close>

definition placeholder :: "int \<Rightarrow> json \<Rightarrow> nat \<Rightarrow> json" where
  "placeholder startId parentTaskId i =
     JObj [(''id'', JNum (startId + int i)),
           (''title'', JStr (''Subtask '' @ show_nat (i + 1))),
           (''description'', JStr ''Auto-generated fallback subtask''),
           (''status'', JStr ''pending''),
           (''dependencies'', JArr []),
           (''parentTaskId'', parentTaskId)]"

definition fallback_subtasks :: "int \<Rightarrow> nat \<Rightarrow> json \<Rightarrow> json list" where
  "fallback_subtasks startId numSubtasks parentTaskId =
     map (placeholder startId parentTaskId) [0..<numSubtasks]"

text \<open>
  Modelled from the spec: the coercion of one dependency to a plain integer. A number
  is kept; a string counts when it is a decimal numeral, an optional minus sign before
  one or more digits; anything else cannot be coerced and is dropped from the list.
\<close>

definition is_digit :: "char \<Rightarrow> bool" where
  "is_digit c = (48 \<le> (of_char c :: nat) \<and> (of_char c :: nat) \<le> 57)"

definition digits_value :: "string \<Rightarrow> nat" where
  "digits_value ds = foldl (\<lambda>acc c. 10 * acc + ((of_char c :: nat) - 48)) 0 ds"

definition parse_decimal :: "string \<Rightarrow> int option" where
  "parse_decimal s =
     (case s of
        [] \<Rightarrow> None
      | c # ds \<Rightarrow>
          (if c = CHR ''-'' then
             (if ds \<noteq> [] \<and> list_all is_digit ds then Some (- int (digits_value ds)) else None)
           else if list_all is_digit (c # ds) then Some (int (digits_value (c # ds)))
           else None))"

fun coerce_dependency :: "json \<Rightarrow> int option" where
  "coerce_dependency (JNum n) = Some n"
| "coerce_dependency (JStr s) = parse_decimal s"
| "coerce_dependency _ = None"

definition coerce_dependencies :: "json list \<Rightarrow> json list" where
  "coerce_dependencies deps = map JNum (List.map_filter coerce_dependency deps)"

text \<open>
  Modelled from the spec: what a successful parse does to the element at position
  \<open>index\<close>: the \<open>id\<close> becomes \<open>startId + index\<close>, \<open>parentTaskId\<close> is attached, a
  \<open>dependencies\<close> array is coerced. The \<open>status\<close> is set to \<open>pending\<close> as well, which
  the unit test \<open>should parse subtasks from JSON text\<close> expects of parsed elements.
\<close>

definition normalize_subtask :: "int \<Rightarrow> json \<Rightarrow> nat \<Rightarrow> (string \<times> json) list \<Rightarrow> json" where
  "normalize_subtask startId parentTaskId index entries =
     (let renumbered = AList.update ''id'' (JNum (startId + int index)) entries;
          coerced =
            (case map_of renumbered ''dependencies'' of
               Some (JArr deps) \<Rightarrow>
                 AList.update ''dependencies'' (JArr (coerce_dependencies deps)) renumbered
             | _ \<Rightarrow> renumbered);
          pending = AList.update ''status'' (JStr ''pending'') coerced
      in JObj (AList.update ''parentTaskId'' parentTaskId pending))"

text \<open>Modelled from the spec: a task-like element is a JSON object.\<close>

fun object_entries :: "json \<Rightarrow> (string \<times> json) list option" where
  "object_entries (JObj entries) = Some entries"
| "object_entries _ = None"

text \<open>
  Modelled from the spec: the parser. It never fails: no array found, a parse error,
  or a parsed value that is not an array of objects all give the placeholders.
\<close>

definition parseSubtasksFromText :: "parser \<Rightarrow> string \<Rightarrow> int \<Rightarrow> nat \<Rightarrow> json \<Rightarrow> json list" where
  "parseSubtasksFromText parse s startId numSubtasks parentTaskId =
     (case locate_array s of
        None \<Rightarrow> fallback_subtasks startId numSubtasks parentTaskId
      | Some found \<Rightarrow>
          (case parse found of
             Inr (JArr subtasks) \<Rightarrow>
               (if list_all (\<lambda>subtask. object_entries subtask \<noteq> None) subtasks then
                  map (\<lambda>(index, subtask).
                         normalize_subtask startId parentTaskId index (the (object_entries subtask)))
                      (List.enumerate 0 subtasks)
                else fallback_subtasks startId numSubtasks parentTaskId)
           | _ \<Rightarrow> fallback_subtasks startId numSubtasks parentTaskId))"

section \<open>Notions used in the statements about the response processing\<close>

text \<open>
  The text between the first \<open>{\<close> and the last \<open>}\<close>, as \<open>processGeminiResponse\<close> and
  \<open>cleanupJsonResponse\<close> both cut it out; \<open>None\<close> when one of the two is missing.
\<close>

definition json_span :: "string \<Rightarrow> string option" where
  "json_span s =
     (let jsonStart = indexOf s CHR ''{''; jsonEnd = lastIndexOf s CHR ''}''
      in if jsonStart = - 1 \<or> jsonEnd = - 1 then None
         else Some (substring s jsonStart (jsonEnd + 1)))"

text \<open>
  A result that passed the parse and the tasks check: on the span of a response of the
  repair request (\<open>answered\<close>), or on the span of the text itself or of such a response
  (\<open>accepted_from\<close>).
\<close>

definition answered :: "parser \<Rightarrow> (nat \<Rightarrow> string \<Rightarrow> js_error + string) \<Rightarrow> json \<Rightarrow> bool" where
  "answered parse gemini r =
     (\<exists>k content fixedContent c tasks.
        gemini k content = Inr fixedContent \<and> json_span fixedContent = Some c \<and>
        parse_and_check parse c = Inr (r, tasks))"

definition accepted_from ::
    "parser \<Rightarrow> (nat \<Rightarrow> string \<Rightarrow> js_error + string) \<Rightarrow> string \<Rightarrow> json \<Rightarrow> bool" where
  "accepted_from parse gemini s r =
     ((\<exists>c tasks. json_span s = Some c \<and> parse_and_check parse c = Inr (r, tasks)) \<or>
      answered parse gemini r)"

text \<open>Retry counts that rise strictly, above \<open>n\<close> and up to 2.\<close>

definition rising :: "nat \<Rightarrow> nat list \<Rightarrow> bool" where
  "rising n xs = (sorted_wrt (<) xs \<and> (\<forall>x\<in>set xs. n < x \<and> x \<le> 2))"

text \<open>
  What holds of every call of \<open>processGeminiResponse\<close> and of \<open>retryWithGemini\<close> at
  retry count \<open>n\<close>: a returned value was accepted and no repair request was sent; a
  throw happens only from retry count 2 on, with no repair request sent; a promise comes
  from a repair request.
\<close>

definition process_inv ::
    "parser \<Rightarrow> (nat \<Rightarrow> string \<Rightarrow> js_error + string) \<Rightarrow> int \<Rightarrow> nat \<Rightarrow> bool" where
  "process_inv parse gemini numTasks n =
     (\<forall>s.
        (case snd (processGeminiResponse parse gemini s numTasks n) of
           Returned r \<Rightarrow>
             repairs (fst (processGeminiResponse parse gemini s numTasks n)) = [] \<and>
             accepted_from parse gemini s r
         | Threw e \<Rightarrow>
             repairs (fst (processGeminiResponse parse gemini s numTasks n)) = [] \<and> 2 \<le> n
         | Promised p \<Rightarrow>
             repairs (fst (processGeminiResponse parse gemini s numTasks n)) \<noteq> [] \<and>
             (\<forall>r. p = Inr r \<longrightarrow> accepted_from parse gemini s r)) \<and>
        rising n (repairs (fst (processGeminiResponse parse gemini s numTasks n))))"

definition retry_inv ::
    "parser \<Rightarrow> (nat \<Rightarrow> string \<Rightarrow> js_error + string) \<Rightarrow> int \<Rightarrow> nat \<Rightarrow> bool" where
  "retry_inv parse gemini numTasks n =
     (\<forall>content. \<exists>p rest.
        snd (retryWithGemini parse gemini content numTasks n) = Promised p \<and>
        (\<forall>r. p = Inr r \<longrightarrow> answered parse gemini r) \<and>
        repairs (fst (retryWithGemini parse gemini content numTasks n)) = n # rest \<and>
        rising n rest)"

text \<open>
  Subtasks numbered under a parent: the element at position \<open>i\<close> is an object whose
  \<open>id\<close> is the text \<open><parentTaskId>.<i + 1>\<close>.
\<close>

definition numbered :: "json \<Rightarrow> json list \<Rightarrow> bool" where
  "numbered parentTaskId subtasks =
     (\<forall>i<length subtasks. \<exists>entries.
        subtasks ! i = JObj entries \<and>
        map_of entries ''id'' = Some (JStr (String_of parentTaskId @ ''.'' @ show_nat (i + 1))))"

text \<open>The array that the text found in a response parses to, if it does.\<close>

definition parsed_array :: "parser \<Rightarrow> string \<Rightarrow> json list option" where
  "parsed_array parse response =
     (case parse (jsonText fenced_array bare_array response) of
        Inr (JArr xs) \<Rightarrow> Some xs
      | _ \<Rightarrow> None)"

section \<open>Concrete inputs\<close>

text \<open>
  \<open>JSON.parse\<close> on the texts of the examples below; any other text counts as a syntax
  error here.
\<close>

definition parse_examples :: parser where
  "parse_examples s =
     (if s = ''{}'' then Inr (JObj [])
      else if s = ''{\"tasks\":[]}'' then Inr (JObj [(''tasks'', JArr [])])
      else if s = ''[{\"id\":\"9.9\"}]'' then Inr (JArr [JObj [(''id'', JStr ''9.9'')]])
      else if s = ''[{\"id\":7,\"title\":\"A\"},{\"title\":\"B\"}]'' then
        Inr (JArr [JObj [(''id'', JNum 7), (''title'', JStr ''A'')], JObj [(''title'', JStr ''B'')]])
      else if s = ''{\"taskId\":99,\"complexityScore\":5}'' then
        Inr (JObj [(''taskId'', JNum 99), (''complexityScore'', JNum 5)])
      else if s = ''{\"complexityScore\":5}'' then Inr (JObj [(''complexityScore'', JNum 5)])
      else if s = ''[{\"id\":10,\"title\":\"A\",\"dependencies\":[]},{\"id\":20,\"title\":\"B\",\"dependencies\":[\"1\"]}]''
      then
        Inr (JArr [JObj [(''id'', JNum 10), (''title'', JStr ''A''), (''dependencies'', JArr [])],
                   JObj [(''id'', JNum 20), (''title'', JStr ''B''),
                         (''dependencies'', JArr [JStr ''1''])]])
      else Inl ''Unexpected token'')"

text \<open>
  Repair requests that are always answered with an empty object, with a malformed
  object, and with prose that holds no braces.
\<close>

definition answer_empty_object :: "nat \<Rightarrow> string \<Rightarrow> js_error + string" where
  "answer_empty_object n problemContent = Inr ''{}''"

definition answer_malformed :: "nat \<Rightarrow> string \<Rightarrow> js_error + string" where
  "answer_malformed n problemContent = Inr ''{oops}''"

definition answer_prose :: "nat \<Rightarrow> string \<Rightarrow> js_error + string" where
  "answer_prose n problemContent = Inr ''I cannot do that''"

text \<open>Attempts that all fail with a rate-limit error, and with an error of no retried kind.\<close>

definition rate_limited :: "nat \<Rightarrow> js_error + json" where
  "rate_limited n = Inl (Error ''Rate Limit exceeded'')"

definition bad_request :: "nat \<Rightarrow> js_error + json" where
  "bad_request n = Inl (Error ''Bad request'')"

text \<open>
  A timeout of the transport: as the error that every streaming request ends with, and
  as the error that the catch block of \<open>callGemini\<close> would receive in every attempt
  if it reached it unchanged. And streaming requests that all end with the structured
  overload error of the provider, whose own message has none of the retried terms.
\<close>

definition stream_timeout :: "nat \<Rightarrow> js_error + string" where
  "stream_timeout n = Inl (Error ''Request timeout'')"

definition timeout_caught :: "nat \<Rightarrow> js_error + json" where
  "timeout_caught n = Inl (Error ''Request timeout'')"

definition stream_busy :: "nat \<Rightarrow> js_error + string" where
  "stream_busy n =
     Inl \<lparr>err_type = Some ''error'',
          err_error = Some \<lparr>inner_type = Some ''OVERLOADED_ERROR'', inner_message = Some ''busy''\<rparr>,
          err_message = Some ''busy''\<rparr>"

text \<open>A response with prose around an object that has tasks and no metadata.\<close>

definition tasks_only :: string where
  "tasks_only = ''Here you go: {\"tasks\":[]} Done.''"

text \<open>A task, and a research setup in which every request would succeed.\<close>

definition login_task :: task_data where
  "login_task =
     \<lparr>task_id = JNum 1, task_title = ''Login'', task_description = ''Add a login form'',
      task_details = None\<rparr>"

definition research_ok :: "nat \<Rightarrow> js_error + string" where
  "research_ok n = Inr ''findings''"

definition refine_ok :: "nat \<Rightarrow> string \<Rightarrow> js_error + string" where
  "refine_ok n researchResults = Inr ''refined plan''"

text \<open>
  Responses of the model: two subtasks with their own ids where three were asked for, a
  single subtask in answer to the repair request, and complexity reports with and
  without a \<open>taskId\<close> of their own.
\<close>

definition two_subtasks :: string where
  "two_subtasks = ''Sure: [{\"id\":7,\"title\":\"A\"},{\"title\":\"B\"}]''"

definition repair_one_subtask :: "string \<Rightarrow> js_error + string" where
  "repair_one_subtask problematicJson = Inr ''[{\"id\":\"9.9\"}]''"

definition report_with_taskId :: string where
  "report_with_taskId = ''{\"taskId\":99,\"complexityScore\":5}''"

definition report_plain :: string where
  "report_plain = ''{\"complexityScore\":5}''"


section \<open>Classification of structured errors\<close>

text \<open>
  C10. \<open>handleGeminiError\<close> compares \<open>error.error.type\<close> with the upper-case names
  only. For a structured error (\<open>error.type\<close> is \<open>error\<close> and \<open>error.error\<close> is
  present): a type other than \<open>OVERLOADED_ERROR\<close>, \<open>RATE_LIMIT_ERROR\<close> and
  \<open>INVALID_REQUEST_ERROR\<close> (a lower-case spelling, or no type at all) gives the generic
  \<open>Gemini API error: <message>\<close>, and one of the three specific messages comes back only
  for one of the three upper-case names.
\<close>

theorem handleGeminiError_case_sensitive:
  assumes "err_type e = Some ''error''" and "err_error e = Some inner"
  shows "(inner_type inner \<notin> {Some ''OVERLOADED_ERROR'', Some ''RATE_LIMIT_ERROR'',
             Some ''INVALID_REQUEST_ERROR''}
          \<longrightarrow> handleGeminiError e = ''Gemini API error: '' @ tmpl (inner_message inner))
       \<and> (handleGeminiError e \<in> specific_messages
          \<longrightarrow> inner_type inner \<in> {Some ''OVERLOADED_ERROR'', Some ''RATE_LIMIT_ERROR'',
             Some ''INVALID_REQUEST_ERROR''})"
proof (cases "inner_type inner \<in> {Some ''OVERLOADED_ERROR'', Some ''RATE_LIMIT_ERROR'',
             Some ''INVALID_REQUEST_ERROR''}")
  case True
  then show ?thesis by blast
next
  case False
  with assms have generic:
    "handleGeminiError e = ''Gemini API error: '' @ tmpl (inner_message inner)"
    by (simp add: handleGeminiError_def)
  then have "handleGeminiError e \<notin> specific_messages"
    by (simp add: specific_messages_def)
  with generic show ?thesis by blast
qed

theorem handleGeminiError_case_sensitive_witness:
  "handleGeminiError
     \<lparr>err_type = Some ''error'',
      err_error = Some \<lparr>inner_type = Some ''rate_limit_error'',
                         inner_message = Some ''Rate limit exceeded''\<rparr>,
      err_message = None\<rparr>
   = ''Gemini API error: Rate limit exceeded''"
  using handleGeminiError_case_sensitive
    [of "\<lparr>err_type = Some ''error'',
          err_error = Some \<lparr>inner_type = Some ''rate_limit_error'',
                             inner_message = Some ''Rate limit exceeded''\<rparr>,
          err_message = None\<rparr>"
        "\<lparr>inner_type = Some ''rate_limit_error'', inner_message = Some ''Rate limit exceeded''\<rparr>"]
  by simp

section \<open>The retry policy of callGemini\<close>

declare show_nat.simps [simp del]
declare callGemini.simps [simp del]

lemma callGemini_ok:
  "hsr n = Inr x \<Longrightarrow> callGemini hsr n = ([Log ''info'' ''Calling Gemini...'', Attempt n], Inr x)"
  by (simp add: callGemini.simps [of hsr n])

lemma callGemini_stop:
  "hsr n = Inl e \<Longrightarrow> \<not> (n < 2 \<and> retryable e) \<Longrightarrow>
   callGemini hsr n =
     ([Log ''info'' ''Calling Gemini...'', Attempt n, Log ''error'' (handleGeminiError e)],
      Inl (Error (handleGeminiError e)))"
  by (simp add: callGemini.simps [of hsr n] Let_def)

lemma callGemini_again:
  assumes "hsr n = Inl e" and "n < 2" and "retryable e"
  shows "waits (fst (callGemini hsr n)) = (n + 1) * 5000 # waits (fst (callGemini hsr (Suc n)))"
    and "attempts (fst (callGemini hsr n)) = n # attempts (fst (callGemini hsr (Suc n)))"
    and "snd (callGemini hsr n) = snd (callGemini hsr (Suc n))"
  using assms by (simp_all add: callGemini.simps [of hsr n] Let_def)

lemma less_two_cases: "(i::nat) < 2 \<longleftrightarrow> i = 0 \<or> i = Suc 0"
  by auto

lemma upt_two: "[0..<2] = [0, Suc 0]"
  by (simp add: upt_conv_Cons)

lemma upt_three: "[0..<3] = [0, Suc 0, 2]"
  by (simp add: upt_conv_Cons)

text \<open>
  The retry loop on the errors that reach the catch block of \<open>callGemini\<close>. In a run
  from retry count 0, with \<open>r\<close> the number of delays it awaits: \<open>r\<close> is at most 2, the
  attempts are those at retry counts \<open>0..r\<close> (at most 3), and the delay after the
  attempt at retry count \<open>i\<close> is \<open>(i + 1) * 5000\<close> ms. Every attempt that was followed
  by a retry ended in an error that passes the test of the catch block. When the last
  attempt ended in an error, the run fails with the user message of that error, and
  either the error does not pass the test or it was the third attempt.
\<close>

lemma callGemini_retry_policy:
  fixes hsr :: "nat \<Rightarrow> js_error + 'r"
  shows "let evs = fst (callGemini hsr 0); res = snd (callGemini hsr 0); r = length (waits evs)
         in r \<le> 2
          \<and> waits evs = map (\<lambda>i. (i + 1) * 5000) [0..<r]
          \<and> attempts evs = [0..<Suc r]
          \<and> (\<forall>i<r. \<exists>e. hsr i = Inl e \<and> retryable e)
          \<and> (\<forall>e. hsr r = Inl e \<longrightarrow>
                (retryable e \<longrightarrow> r = 2) \<and> res = Inl (Error (handleGeminiError e)))
          \<and> (\<forall>x. hsr r = Inr x \<longrightarrow> res = Inr x)"
proof (cases "hsr 0")
  case (Inr x)
  then show ?thesis by (simp add: callGemini_ok)
next
  case e0: (Inl e0)
  show ?thesis
  proof (cases "retryable e0")
    case False
    with e0 show ?thesis by (simp add: callGemini_stop)
  next
    case r0: True
    note first = callGemini_again [of hsr 0 e0, OF e0 _ r0, simplified]
    show ?thesis
    proof (cases "hsr 1")
      case (Inr x)
      with e0 r0 show ?thesis
        by (simp add: first callGemini_ok [of hsr "Suc 0"])
    next
      case e1: (Inl e1)
      show ?thesis
      proof (cases "retryable e1")
        case False
        with e0 r0 e1 show ?thesis
          by (simp add: first callGemini_stop [of hsr "Suc 0"])
      next
        case r1: True
        have e1': "hsr (Suc 0) = Inl e1" using e1 by simp
        note second = callGemini_again [of hsr "Suc 0" e1, OF e1' _ r1, simplified]
        have two: "Suc (Suc 0) = 2" by simp
        show ?thesis
        proof (cases "hsr 2")
          case (Inr x)
          with e0 r0 e1 r1 show ?thesis
            by (simp add: first second two callGemini_ok [of hsr 2] upt_two less_two_cases)
        next
          case (Inl e2)
          with e0 r0 e1 r1 show ?thesis
            by (simp add: first second two callGemini_stop [of hsr 2] upt_two less_two_cases)
        qed
      qed
    qed
  qed
qed

text \<open>
  Two runs of the loop: a rate-limit error in the catch block of every attempt, and an
  error of no retried kind.
\<close>

lemma callGemini_retry_policy_witness:
  "waits (fst (callGemini rate_limited 0)) = [5000, 10000]
   \<and> attempts (fst (callGemini rate_limited 0)) = [0, 1, 2]
   \<and> snd (callGemini rate_limited 0) =
       Inl (Error ''Error communicating with Gemini: Rate Limit exceeded'')
   \<and> waits (fst (callGemini bad_request 0)) = []
   \<and> attempts (fst (callGemini bad_request 0)) = [0]
   \<and> snd (callGemini bad_request 0) =
       Inl (Error ''Error communicating with Gemini: Bad request'')"
proof -
  have yes: "retryable (Error ''Rate Limit exceeded'')" by code_simp
  have no: "\<not> retryable (Error ''Bad request'')" by code_simp
  have m1: "handleGeminiError (Error ''Rate Limit exceeded'') =
              ''Error communicating with Gemini: Rate Limit exceeded''"
    by code_simp
  have m2: "handleGeminiError (Error ''Bad request'') =
              ''Error communicating with Gemini: Bad request''"
    by code_simp
  define r1 where "r1 = length (waits (fst (callGemini rate_limited 0)))"
  define r2 where "r2 = length (waits (fst (callGemini bad_request 0)))"
  have A: "r1 = 2"
    using callGemini_retry_policy [of rate_limited] yes
    by (simp add: Let_def rate_limited_def r1_def)
  have B: "r2 = 0"
    using callGemini_retry_policy [of bad_request] no
    by (auto simp add: Let_def bad_request_def r2_def)
  from A callGemini_retry_policy [of rate_limited] have
    "waits (fst (callGemini rate_limited 0)) = [5000, 10000]
     \<and> attempts (fst (callGemini rate_limited 0)) = [0, 1, 2]
     \<and> snd (callGemini rate_limited 0) =
         Inl (Error ''Error communicating with Gemini: Rate Limit exceeded'')"
    unfolding Let_def r1_def [symmetric]
    by (simp add: upt_two upt_three rate_limited_def m1)
  moreover from B callGemini_retry_policy [of bad_request] have
    "waits (fst (callGemini bad_request 0)) = []
     \<and> attempts (fst (callGemini bad_request 0)) = [0]
     \<and> snd (callGemini bad_request 0) =
         Inl (Error ''Error communicating with Gemini: Bad request'')"
    unfolding Let_def r2_def [symmetric]
    by (simp add: bad_request_def m2)
  ultimately show ?thesis by blast
qed

text \<open>
  What \<open>callGemini\<close> catches from \<open>handleStreamingRequest\<close> when the streaming
  request itself fails is a new error carrying the user message. For a plain timeout
  that message has none of the four terms.
\<close>

lemma handleStreamingRequest_rethrows:
  "snd (handleStreamingRequest parse gemini (Inl error) numTasks) =
     Inl (Error (handleGeminiError error))"
  by (simp add: handleStreamingRequest_def)

lemma timeout_message_not_retryable:
  "handleGeminiError (Error ''Request timeout'') =
     ''The request to Gemini timed out. Please try again.''
   \<and> \<not> retryable (Error ''The request to Gemini timed out. Please try again.'')"
  by code_simp

text \<open>
  C2. The claim at a transport error with the message \<open>Request timeout\<close>, raised by
  the streaming request of every attempt. The catch block of \<open>callGemini\<close> tests the
  message of the error it receives for \<open>timeout\<close>, and an error with this message
  reaching it is retried twice, after 5000 and 10000 ms. But the error of the streaming
  request reaches it through the catch block of \<open>handleStreamingRequest\<close>, which throws
  a new error made of the user message; that message has none of the four terms. So the
  run makes one attempt, awaits no delay, and fails with the user message wrapped a
  second time: the timeout of the transport is not retried.
\<close>

theorem callGemini_timeout_not_retried:
  "message_includes (Error ''Request timeout'') ''timeout''
   \<and> waits (fst (callGemini timeout_caught 0)) = [5000, 10000]
   \<and> attempts (fst (callGemini timeout_caught 0)) = [0, 1, 2]
   \<and> waits (fst (callGemini_streaming parse_examples answer_empty_object stream_timeout 3)) = []
   \<and> attempts (fst (callGemini_streaming parse_examples answer_empty_object stream_timeout 3)) = [0]
   \<and> snd (callGemini_streaming parse_examples answer_empty_object stream_timeout 3) =
       Inl (Error ''Error communicating with Gemini: The request to Gemini timed out. Please try again.'')"
  by code_simp

text \<open>
  The same catch block changes the other direction as well: the structured overload
  error of the provider, whose own message has none of the four terms, is thrown on as
  an error whose message says \<open>overloaded\<close>, and the run retries twice.
\<close>

lemma callGemini_overload_retried:
  "\<not> retryable \<lparr>err_type = Some ''error'',
                   err_error = Some \<lparr>inner_type = Some ''OVERLOADED_ERROR'',
                                      inner_message = Some ''busy''\<rparr>,
                   err_message = Some ''busy''\<rparr>
   \<and> waits (fst (callGemini_streaming parse_examples answer_empty_object stream_busy 3)) =
       [5000, 10000]
   \<and> attempts (fst (callGemini_streaming parse_examples answer_empty_object stream_busy 3)) =
       [0, 1, 2]"
  by code_simp

section \<open>Processing the response: cleanup, repair, acceptance\<close>

declare processGeminiResponse.simps [simp del] retryWithGemini.simps [simp del]

subsection \<open>Positions in a text\<close>

lemma indexOf_first: "c \<notin> set pre \<Longrightarrow> indexOf (pre @ c # post) c = int (length pre)"
  by (induction pre) auto

lemma indexOf_absent: "c \<notin> set s \<Longrightarrow> indexOf s c = - 1"
  by (induction s) auto

lemma indexOf_range: "indexOf s c = - 1 \<or> (0 \<le> indexOf s c \<and> indexOf s c < int (length s))"
  by (induction s) (auto simp: Let_def)

lemma indexOf_present: "indexOf s c \<noteq> - 1 \<Longrightarrow> c \<in> set s"
  using indexOf_absent by blast

lemma lastIndexOf_last: "c \<notin> set post \<Longrightarrow> lastIndexOf (pre @ c # post) c = int (length pre)"
  using indexOf_first [of c "rev post" "rev pre"] by (simp add: lastIndexOf_def Let_def)

lemma lastIndexOf_present: "lastIndexOf s c \<noteq> - 1 \<Longrightarrow> c \<in> set s"
  using indexOf_absent [of c "rev s"] by (auto simp: lastIndexOf_def Let_def split: if_splits)

lemma substring_whole: "substring (c # mid @ [d]) 0 (int (length mid) + 1 + 1) = c # mid @ [d]"
  by (simp add: substring_def Let_def)

lemma substring_middle:
  "substring (pre @ xs @ post) (int (length pre)) (int (length pre) + int (length xs)) = xs"
proof -
  let ?n = "int (length (pre @ xs @ post))"
  let ?a = "int (length pre)"
  let ?b = "int (length pre) + int (length xs)"
  have a: "max 0 (min ?a ?n) = ?a" and b: "max 0 (min ?b ?n) = ?b"
    and lo: "min ?a ?b = ?a" and hi: "max ?a ?b = ?b"
    by simp_all
  show ?thesis unfolding substring_def Let_def a b lo hi by simp
qed

lemma substring_middle_swapped:
  "substring (pre @ xs @ post) (int (length pre) + int (length xs)) (int (length pre)) = xs"
proof -
  let ?n = "int (length (pre @ xs @ post))"
  let ?a = "int (length pre)"
  let ?b = "int (length pre) + int (length xs)"
  have a: "max 0 (min ?a ?n) = ?a" and b: "max 0 (min ?b ?n) = ?b"
    and lo: "min ?b ?a = ?a" and hi: "max ?b ?a = ?b"
    by simp_all
  show ?thesis unfolding substring_def Let_def a b lo hi by simp
qed

lemma json_span_braced: "json_span (CHR ''{'' # mid @ [CHR ''}'']) = Some (CHR ''{'' # mid @ [CHR ''}''])"
proof -
  have a: "indexOf (CHR ''{'' # mid @ [CHR ''}'']) CHR ''{'' = 0" by simp
  have b: "lastIndexOf (CHR ''{'' # mid @ [CHR ''}'']) CHR ''}'' = int (length mid) + 1"
    using lastIndexOf_last [of "CHR ''}''" "[]" "CHR ''{'' # mid"] by simp
  show ?thesis
    unfolding json_span_def Let_def a b using substring_whole [of "CHR ''{''" mid "CHR ''}''"] by simp
qed

lemma json_span_ordered:
  assumes "indexOf s CHR ''{'' \<noteq> - 1" and "indexOf s CHR ''{'' < lastIndexOf s CHR ''}''"
  shows "\<exists>mid. json_span s = Some (CHR ''{'' # mid @ [CHR ''}''])"
proof -
  from assms(1) have "CHR ''{'' \<in> set s" by (rule indexOf_present)
  then obtain pre rest where s1: "s = pre @ CHR ''{'' # rest" and pre: "CHR ''{'' \<notin> set pre"
    by (auto dest: split_list_first)
  have i: "indexOf s CHR ''{'' = int (length pre)" using indexOf_first [OF pre] s1 by simp
  from assms i have "lastIndexOf s CHR ''}'' \<noteq> - 1" by linarith
  then have "CHR ''}'' \<in> set s" by (rule lastIndexOf_present)
  then obtain pre2 post where s2: "s = pre2 @ CHR ''}'' # post" and post: "CHR ''}'' \<notin> set post"
    by (auto dest: split_list_last)
  have j: "lastIndexOf s CHR ''}'' = int (length pre2)" using lastIndexOf_last [OF post] s2 by simp
  from assms i j have lt: "length pre < length pre2" by simp
  from s1 s2 have eq: "pre @ CHR ''{'' # rest = pre2 @ CHR ''}'' # post" by simp
  from lt eq obtain mid where pre2: "pre2 = pre @ CHR ''{'' # mid"
    by (auto simp: append_eq_append_conv2 append_eq_Cons_conv Cons_eq_append_conv)
  have s3: "s = pre @ (CHR ''{'' # mid @ [CHR ''}'']) @ post" using s2 pre2 by simp
  have "int (length pre2) + 1 = int (length pre) + int (length (CHR ''{'' # mid @ [CHR ''}'']))"
    unfolding pre2 by simp
  then have "substring s (int (length pre)) (int (length pre2) + 1) = CHR ''{'' # mid @ [CHR ''}'']"
    unfolding s3 by (simp only: substring_middle)
  with i j show ?thesis by (auto simp: json_span_def Let_def)
qed



lemma json_span_unordered:
  assumes span: "json_span s = Some c" and order: "\<not> indexOf s CHR ''{'' < lastIndexOf s CHR ''}''"
  shows "json_span c = None"
proof -
  from span have present: "indexOf s CHR ''{'' \<noteq> - 1" "lastIndexOf s CHR ''}'' \<noteq> - 1"
    and c: "c = substring s (indexOf s CHR ''{'') (lastIndexOf s CHR ''}'' + 1)"
    by (auto simp: json_span_def Let_def split: if_splits)
  from present(1) have "CHR ''{'' \<in> set s" by (rule indexOf_present)
  then obtain pre rest where s1: "s = pre @ CHR ''{'' # rest" and pre: "CHR ''{'' \<notin> set pre"
    by (auto dest: split_list_first)
  have i: "indexOf s CHR ''{'' = int (length pre)" using indexOf_first [OF pre] s1 by simp
  from present(2) have "CHR ''}'' \<in> set s" by (rule lastIndexOf_present)
  then obtain pre2 post where s2: "s = pre2 @ CHR ''}'' # post" and post: "CHR ''}'' \<notin> set post"
    by (auto dest: split_list_last)
  have j: "lastIndexOf s CHR ''}'' = int (length pre2)" using lastIndexOf_last [OF post] s2 by simp
  from order i j have le: "length pre2 \<le> length pre" by simp
  from s1 s2 have eq: "pre @ CHR ''{'' # rest = pre2 @ CHR ''}'' # post" by simp
  from le eq obtain mid where pre_eq: "pre = pre2 @ CHR ''}'' # mid"
    by (auto simp: append_eq_append_conv2 append_eq_Cons_conv Cons_eq_append_conv)
  have s3: "s = (pre2 @ [CHR ''}'']) @ mid @ (CHR ''{'' # rest)" using s1 pre_eq by simp
  have "c = substring s (int (length (pre2 @ [CHR ''}''])) + int (length mid))
              (int (length (pre2 @ [CHR ''}''])))"
    using c i j pre_eq by (simp add: add.commute add.left_commute)
  also have "\<dots> = mid"
    unfolding s3 by (simp only: substring_middle_swapped)
  finally have "c = mid" .
  moreover have "CHR ''{'' \<notin> set mid" using pre pre_eq by simp
  ultimately have "indexOf c CHR ''{'' = - 1" by (simp add: indexOf_absent)
  then show ?thesis by (simp add: json_span_def)
qed

lemma json_span_span:
  assumes "json_span s = Some c" and "json_span c = Some c'"
  shows "c' = c"
proof (cases "indexOf s CHR ''{'' < lastIndexOf s CHR ''}''")
  case True
  from assms(1) have "indexOf s CHR ''{'' \<noteq> - 1"
    by (auto simp: json_span_def Let_def split: if_splits)
  from json_span_ordered [OF this True] assms(1) obtain mid where "c = CHR ''{'' # mid @ [CHR ''}'']"
    by auto
  with json_span_braced [of mid] assms(2) show ?thesis by simp
next
  case False
  from json_span_unordered [OF assms(1) False] assms(2) show ?thesis by simp
qed

subsection \<open>One step of the response processing\<close>

lemma repairs_append [simp]: "repairs (xs @ ys) = repairs xs @ repairs ys"
  by (induction xs rule: repairs.induct) auto

lemma cleanup_span: "cleanupJsonResponse s = (case json_span s of None \<Rightarrow> s | Some c \<Rightarrow> c)"
  by (simp add: cleanupJsonResponse_def json_span_def Let_def)

lemma process_nojson:
  assumes "json_span s = None"
  shows "processGeminiResponse parse gemini s numTasks n =
     (if n < 2 then
        ([Log ''error'' ''Error processing response: No valid JSON found in the response'',
          Log ''info'' (''Retrying with Gemini to fix the response, attempt '' @ show_nat (Suc n) @ ''/2'')]
           @ fst (retryWithGemini parse gemini s numTasks (Suc n)),
         snd (retryWithGemini parse gemini s numTasks (Suc n)))
      else ([Log ''error'' ''Error processing response: No valid JSON found in the response''],
            Threw (Error ''Failed to process response: No valid JSON found in the response'')))"
  using assms
  by (auto simp add: processGeminiResponse.simps [of parse gemini s numTasks n] json_span_def Let_def Error_def
      split: if_splits)

lemma process_ok:
  assumes "json_span s = Some c" and "parse_and_check parse c = Inr (result, tasks)"
  shows "processGeminiResponse parse gemini s numTasks n =
     ((if int (length tasks) \<noteq> numTasks then
          [Log ''warn'' (''Expected '' @ show_int numTasks @ '' tasks, but got '' @ show_nat (length tasks))]
       else []), Returned result)"
  using assms
  by (auto simp add: processGeminiResponse.simps [of parse gemini s numTasks n] json_span_def Let_def
      split: if_splits)

lemma process_bad_last:
  assumes "json_span s = Some c" and "parse_and_check parse c = Inl m" and "\<not> n < 3"
  shows "processGeminiResponse parse gemini s numTasks n =
     ([Log ''error'' (''Error parsing JSON: '' @ m),
       Log ''error'' ''Error processing response: Failed to parse JSON response after multiple attempts''],
      Threw (Error ''Failed to process response: Failed to parse JSON response after multiple attempts''))"
  using assms
  by (auto simp add: processGeminiResponse.simps [of parse gemini s numTasks n] json_span_def Let_def Error_def
      split: if_splits)

lemma process_bad_again:
  assumes "json_span s = Some c" and "parse_and_check parse c = Inl m" and "n < 3"
  shows "processGeminiResponse parse gemini s numTasks n =
     (let again = processGeminiResponse parse gemini c numTasks (Suc n);
          pre = [Log ''error'' (''Error parsing JSON: '' @ m),
                 Log ''info'' (''Retrying JSON parsing with cleanup attempt '' @ show_nat (Suc n) @ ''/3'')]
      in case snd again of
           Threw error \<Rightarrow>
             (if n < 2 then
                (pre @ fst again @
                 [Log ''error'' (''Error processing response: '' @ tmpl (err_message error)),
                  Log ''info'' (''Retrying with Gemini to fix the response, attempt '' @ show_nat (Suc n) @ ''/2'')]
                 @ fst (retryWithGemini parse gemini s numTasks (Suc n)),
                 snd (retryWithGemini parse gemini s numTasks (Suc n)))
              else
                (pre @ fst again @
                 [Log ''error'' (''Error processing response: '' @ tmpl (err_message error))],
                 Threw (Error (''Failed to process response: '' @ tmpl (err_message error)))))
         | _ \<Rightarrow> (pre @ fst again, snd again))"
  using assms
  by (auto simp add: processGeminiResponse.simps [of parse gemini s numTasks n] json_span_def Let_def
      cleanupJsonResponse_def split: if_splits completion.splits)

lemma retry_fail:
  assumes "gemini n content = Inl error"
  shows "retryWithGemini parse gemini content numTasks n =
          ([Log ''info'' ''Asking Gemini to fix the JSON response...'', Repair n,
            Log ''error'' (handleGeminiError error)],
           Promised (Inl (Error (''Failed to fix JSON response: '' @ tmpl (err_message error)))))"
  using assms by (simp add: retryWithGemini.simps)

lemma retry_ok:
  assumes "gemini n content = Inr fixedContent"
  shows "retryWithGemini parse gemini content numTasks n =
          (let processed = processGeminiResponse parse gemini fixedContent numTasks n
           in case snd processed of
                Threw error \<Rightarrow>
                  ([Log ''info'' ''Asking Gemini to fix the JSON response...'', Repair n] @
                   fst processed @ [Log ''error'' (handleGeminiError error)],
                   Promised (Inl (Error (''Failed to fix JSON response: '' @
                      tmpl (err_message error)))))
              | Returned result \<Rightarrow>
                  ([Log ''info'' ''Asking Gemini to fix the JSON response...'', Repair n] @
                   fst processed,
                   Promised (Inr result))
              | Promised p \<Rightarrow>
                  ([Log ''info'' ''Asking Gemini to fix the JSON response...'', Repair n] @
                   fst processed,
                   Promised p))"
  using assms by (simp add: retryWithGemini.simps)


subsection \<open>What every call keeps\<close>

lemma span_accepted:
  "json_span s = Some c \<Longrightarrow> parse_and_check parse c = Inr (r, ts) \<Longrightarrow>
   accepted_from parse gemini s r"
  by (auto simp: accepted_from_def)

lemma answered_accepted: "answered parse gemini r \<Longrightarrow> accepted_from parse gemini s r"
  by (simp add: accepted_from_def)

lemma accepted_from_span:
  assumes "json_span s = Some c" and "accepted_from parse gemini c r"
  shows "accepted_from parse gemini s r"
proof -
  from assms(2) consider c' tasks where "json_span c = Some c'" "parse_and_check parse c' = Inr (r, tasks)"
    | "answered parse gemini r"
    unfolding accepted_from_def by blast
  then show ?thesis
  proof cases
    case 1
    with json_span_span [OF assms(1)] have "parse_and_check parse c = Inr (r, tasks)" by simp
    with assms(1) show ?thesis by (rule span_accepted)
  next
    case 2
    then show ?thesis by (rule answered_accepted)
  qed
qed

lemma accepted_from_answer:
  assumes "gemini k content = Inr fixedContent" and "accepted_from parse gemini fixedContent r"
  shows "answered parse gemini r"
  using assms unfolding accepted_from_def answered_def by blast

lemma parse_and_check_tasks:
  "parse_and_check parse c = Inr (r, tasks) \<Longrightarrow> parse c = Inr r \<and> tasks_array r = Inr tasks"
  by (auto simp: parse_and_check_def split: sum.splits)

lemma accepted_has_tasks:
  assumes "accepted_from parse gemini s r"
  shows "\<exists>tasks. tasks_array r = Inr tasks"
proof -
  from assms obtain c tasks where "parse_and_check parse c = Inr (r, tasks)"
    unfolding accepted_from_def answered_def by blast
  then show ?thesis by (blast dest: parse_and_check_tasks)
qed

lemma rising_Nil [simp]: "rising n []"
  by (simp add: rising_def)

lemma rising_weaken: "rising (Suc n) xs \<Longrightarrow> rising n xs"
  by (auto simp: rising_def)

lemma rising_Cons: "n < 2 \<Longrightarrow> rising (Suc n) rest \<Longrightarrow> rising n (Suc n # rest)"
  by (auto simp: rising_def)

lemma rising_two: "rising 2 rest \<Longrightarrow> rest = []"
  by (cases rest) (auto simp: rising_def)

lemma rising_length: "rising n xs \<Longrightarrow> length xs \<le> 2"
proof -
  assume r: "rising n xs"
  then have "distinct xs" by (simp add: rising_def strict_sorted_iff)
  moreover from r have "set xs \<subseteq> {1, 2}" by (auto simp: rising_def)
  then have "card (set xs) \<le> card {1::nat, 2}" by (intro card_mono) auto
  ultimately show ?thesis by (simp add: distinct_card)
qed

lemma retry_inv_step:
  assumes "process_inv parse gemini numTasks n"
  shows "retry_inv parse gemini numTasks n"
  unfolding retry_inv_def
proof
  fix content
  let ?R = "retryWithGemini parse gemini content numTasks n"
  show "\<exists>p rest. snd ?R = Promised p \<and> (\<forall>r. p = Inr r \<longrightarrow> answered parse gemini r)
          \<and> repairs (fst ?R) = n # rest \<and> rising n rest"
  proof (cases "gemini n content")
    case (Inl error)
    then show ?thesis by (simp add: retry_fail)
  next
    case (Inr fixedContent)
    let ?P = "processGeminiResponse parse gemini fixedContent numTasks n"
    from assms have inv:
      "(case snd ?P of
          Returned r \<Rightarrow> repairs (fst ?P) = [] \<and> accepted_from parse gemini fixedContent r
        | Threw e \<Rightarrow> repairs (fst ?P) = [] \<and> 2 \<le> n
        | Promised p \<Rightarrow> repairs (fst ?P) \<noteq> [] \<and>
            (\<forall>r. p = Inr r \<longrightarrow> accepted_from parse gemini fixedContent r))
       \<and> rising n (repairs (fst ?P))"
      unfolding process_inv_def by blast
    note answer = accepted_from_answer
      [where gemini = gemini and k = n and content = content and parse = parse, OF Inr]
    from inv Inr show ?thesis
      by (cases "snd ?P") (auto simp add: retry_ok Let_def intro: answer)
  qed
qed

lemma process_inv_step:
  assumes next_inv: "n < 3 \<Longrightarrow> process_inv parse gemini numTasks (Suc n)"
  shows "process_inv parse gemini numTasks n"
  unfolding process_inv_def
proof
  fix s
  let ?P = "processGeminiResponse parse gemini s numTasks n"
  let ?R = "retryWithGemini parse gemini s numTasks (Suc n)"
  have fixed: "\<exists>p rest. snd ?R = Promised p \<and> (\<forall>r. p = Inr r \<longrightarrow> accepted_from parse gemini s r)
       \<and> repairs (fst ?R) = Suc n # rest \<and> rising (Suc n) rest" if "n < 2"
  proof -
    from that next_inv have "retry_inv parse gemini numTasks (Suc n)"
      by (intro retry_inv_step) simp
    then obtain p rest where "snd ?R = Promised p" "\<forall>r. p = Inr r \<longrightarrow> answered parse gemini r"
      "repairs (fst ?R) = Suc n # rest" "rising (Suc n) rest"
      unfolding retry_inv_def by blast
    then show ?thesis by (blast intro: answered_accepted)
  qed
  show "(case snd ?P of
        Returned r \<Rightarrow> repairs (fst ?P) = [] \<and> accepted_from parse gemini s r
      | Threw e \<Rightarrow> repairs (fst ?P) = [] \<and> 2 \<le> n
      | Promised p \<Rightarrow> repairs (fst ?P) \<noteq> [] \<and> (\<forall>r. p = Inr r \<longrightarrow> accepted_from parse gemini s r))
     \<and> rising n (repairs (fst ?P))"
  proof (cases "json_span s")
    case None
    show ?thesis
    proof (cases "n < 2")
      case True
      from fixed [OF True] obtain p rest where
        "snd ?R = Promised p" "\<forall>r. p = Inr r \<longrightarrow> accepted_from parse gemini s r"
        "repairs (fst ?R) = Suc n # rest" "rising (Suc n) rest" by blast
      with True show ?thesis
        by (simp add: process_nojson [OF None] rising_Cons)
    next
      case False
      then show ?thesis by (simp add: process_nojson [OF None])
    qed
  next
    case (Some c)
    show ?thesis
    proof (cases "parse_and_check parse c")
      case (Inr passed)
      obtain result tasks where "passed = (result, tasks)" by (cases passed)
      with Inr have ok: "parse_and_check parse c = Inr (result, tasks)" by simp
      then show ?thesis
        by (simp add: process_ok [OF Some ok] span_accepted [OF Some ok])
    next
      case (Inl m)
      show ?thesis
      proof (cases "n < 3")
        case False
        then show ?thesis by (simp add: process_bad_last [OF Some Inl])
      next
        case True
        let ?A = "processGeminiResponse parse gemini c numTasks (Suc n)"
        from next_inv [OF True] have
          "\<forall>s. (case snd (processGeminiResponse parse gemini s numTasks (Suc n)) of
              Returned r \<Rightarrow>
                repairs (fst (processGeminiResponse parse gemini s numTasks (Suc n))) = [] \<and>
                accepted_from parse gemini s r
            | Threw e \<Rightarrow>
                repairs (fst (processGeminiResponse parse gemini s numTasks (Suc n))) = [] \<and>
                2 \<le> Suc n
            | Promised p \<Rightarrow>
                repairs (fst (processGeminiResponse parse gemini s numTasks (Suc n))) \<noteq> [] \<and>
                (\<forall>r. p = Inr r \<longrightarrow> accepted_from parse gemini s r))
           \<and> rising (Suc n) (repairs (fst (processGeminiResponse parse gemini s numTasks (Suc n))))"
          unfolding process_inv_def .
        then have again:
          "(case snd ?A of
              Returned r \<Rightarrow> repairs (fst ?A) = [] \<and> accepted_from parse gemini c r
            | Threw e \<Rightarrow> repairs (fst ?A) = [] \<and> 2 \<le> Suc n
            | Promised p \<Rightarrow> repairs (fst ?A) \<noteq> [] \<and>
                (\<forall>r. p = Inr r \<longrightarrow> accepted_from parse gemini c r))
           \<and> rising (Suc n) (repairs (fst ?A))"
          by (rule allE)
        note up = accepted_from_span [OF Some]
        show ?thesis
        proof (cases "snd ?A")
          case (Returned r)
          with again show ?thesis
            by (simp add: process_bad_again [OF Some Inl True] Let_def up)
        next
          case (Promised p)
          with again show ?thesis
            by (auto simp add: process_bad_again [OF Some Inl True] Let_def rising_weaken intro: up)
        next
          case (Threw e)
          show ?thesis
          proof (cases "n < 2")
            case False
            with Threw again show ?thesis
              by (simp add: process_bad_again [OF Some Inl True] Let_def)
          next
            case lt: True
            from fixed [OF lt] obtain p rest where
              "snd ?R = Promised p" "\<forall>r. p = Inr r \<longrightarrow> accepted_from parse gemini s r"
              "repairs (fst ?R) = Suc n # rest" "rising (Suc n) rest" by blast
            with lt Threw again show ?thesis
              by (simp add: process_bad_again [OF Some Inl True] Let_def rising_Cons)
          qed
        qed
      qed
    qed
  qed
qed

lemma process_inv_all: "process_inv parse gemini numTasks n"
proof (induction "3 - n" arbitrary: n)
  case 0
  show ?case
  proof (rule process_inv_step)
    assume "n < 3"
    with 0 show "process_inv parse gemini numTasks (Suc n)" by simp
  qed
next
  case (Suc k)
  then have "process_inv parse gemini numTasks (Suc n)" by simp
  then show ?case by (rule process_inv_step)
qed

lemma process_facts:
  fixes parse gemini s numTasks n
  defines "P \<equiv> processGeminiResponse parse gemini s numTasks n"
  shows "rising n (repairs (fst P))"
    and "snd P = Returned r \<Longrightarrow> repairs (fst P) = [] \<and> accepted_from parse gemini s r"
    and "snd P = Threw e \<Longrightarrow> repairs (fst P) = [] \<and> 2 \<le> n"
    and "snd P = Promised p \<Longrightarrow>
           repairs (fst P) \<noteq> [] \<and> (\<forall>r. p = Inr r \<longrightarrow> accepted_from parse gemini s r)"
  using process_inv_all [of parse gemini numTasks n]
  unfolding process_inv_def P_def
  by (auto dest: spec [of _ s])

lemma cleanups_append [simp]: "cleanups (xs @ ys) = cleanups xs @ cleanups ys"
  by (induction xs rule: cleanups.induct) auto

lemma show_nat_small: "show_nat (Suc 0) = ''1''" "show_nat 2 = ''2''" "show_nat 3 = ''3''"
  by code_simp+

lemma retry_events:
  "\<exists>after. fst (retryWithGemini parse gemini content numTasks n) =
      Log ''info'' ''Asking Gemini to fix the JSON response...'' # Repair n # after"
proof (cases "gemini n content")
  case (Inl error)
  then show ?thesis by (simp add: retry_fail)
next
  case (Inr fixedContent)
  then show ?thesis
    by (cases "snd (processGeminiResponse parse gemini fixedContent numTasks n)")
       (simp_all add: retry_ok Let_def)
qed

lemma keeps_failing_run:
  assumes braces: "indexOf s CHR ''{'' \<noteq> - 1" "indexOf s CHR ''{'' < lastIndexOf s CHR ''}''"
      and bad_text: "\<forall>c. json_span s = Some c \<longrightarrow> isl (parse_and_check parse c)"
      and bad_answers: "\<forall>k content fixedContent c.
             gemini k content = Inr fixedContent \<and> json_span fixedContent = Some c
             \<longrightarrow> isl (parse_and_check parse c)"
  shows "\<exists>before after e.
           fst (processGeminiResponse parse gemini s numTasks 0) = before @ Repair 2 # after
         \<and> cleanups before = [''Retrying JSON parsing with cleanup attempt 1/3'',
                               ''Retrying JSON parsing with cleanup attempt 2/3'',
                               ''Retrying JSON parsing with cleanup attempt 3/3'']
         \<and> repairs before = [] \<and> repairs after = []
         \<and> snd (processGeminiResponse parse gemini s numTasks 0) = Promised (Inl e)"
proof -
  from json_span_ordered [OF braces] obtain mid where
    span: "json_span s = Some (CHR ''{'' # mid @ [CHR ''}''])" by blast
  define c where "c = CHR ''{'' # mid @ [CHR ''}'']"
  have span_s: "json_span s = Some c" and span_c: "json_span c = Some c"
    using span json_span_braced [of mid] by (simp_all add: c_def)
  from bad_text span_s obtain m where bad: "parse_and_check parse c = Inl m"
    by (cases "parse_and_check parse c") auto
  have never: "\<not> accepted_from parse gemini c v" for v
  proof
    assume "accepted_from parse gemini c v"
    then consider tasks where "parse_and_check parse c = Inr (v, tasks)"
      | k content fixedContent c' tasks where "gemini k content = Inr fixedContent"
          "json_span fixedContent = Some c'" "parse_and_check parse c' = Inr (v, tasks)"
      unfolding accepted_from_def answered_def using span_c by auto
    then show False
    proof cases
      case 1
      with bad show False by simp
    next
      case 2
      with bad_answers have "isl (parse_and_check parse c')" by blast
      with 2(3) show False by simp
    qed
  qed
  let ?R = "retryWithGemini parse gemini c numTasks 2"
  let ?P2 = "processGeminiResponse parse gemini c numTasks 2"
  have p3: "snd (processGeminiResponse parse gemini c numTasks 3) =
              Threw (Error ''Failed to process response: Failed to parse JSON response after multiple attempts'')"
    and e3: "cleanups (fst (processGeminiResponse parse gemini c numTasks 3)) = []"
            "repairs (fst (processGeminiResponse parse gemini c numTasks 3)) = []"
    by (simp_all add: process_bad_last [OF span_c bad])
  have two: "Suc (Suc 0) = 2" and three: "Suc 2 = 3" by simp_all
  have p2: "\<exists>e. snd ?P2 = Threw e"
    and e2: "cleanups (fst ?P2) = [''Retrying JSON parsing with cleanup attempt 3/3'']"
            "repairs (fst ?P2) = []"
    using p3 e3
    by (simp_all add: process_bad_again [OF span_c bad, of 2] three Let_def show_nat_small)
  from retry_inv_step [OF process_inv_all, of parse gemini numTasks 2] obtain p rest where
    r: "snd ?R = Promised p" "\<forall>r. p = Inr r \<longrightarrow> answered parse gemini r"
       "repairs (fst ?R) = 2 # rest" "rising 2 rest"
    unfolding retry_inv_def by blast
  from r(4) have rest: "rest = []" by (rule rising_two)
  from r(2) never obtain e where p: "p = Inl e"
    by (cases p) (auto dest: answered_accepted)
  from retry_events [of parse gemini c numTasks 2] obtain after where
    after: "fst ?R = Log ''info'' ''Asking Gemini to fix the JSON response...'' # Repair 2 # after"
    by blast
  with r(3) rest have after_repairs: "repairs after = []" by simp
  from p2 obtain e2' where t2: "snd ?P2 = Threw e2'" by blast
  let ?L1 = "[Log ''error'' (''Error parsing JSON: '' @ m),
              Log ''info'' (''Retrying JSON parsing with cleanup attempt '' @ show_nat (Suc (Suc 0)) @ ''/3'')]
             @ fst ?P2 @
             [Log ''error'' (''Error processing response: '' @ tmpl (err_message e2')),
              Log ''info'' (''Retrying with Gemini to fix the response, attempt '' @
                 show_nat (Suc (Suc 0)) @ ''/2'')]"
  have p1: "processGeminiResponse parse gemini c numTasks (Suc 0) = (?L1 @ fst ?R, snd ?R)"
    using t2 by (simp add: process_bad_again [OF span_c bad, of "Suc 0"] two Let_def)
  let ?L0 = "[Log ''error'' (''Error parsing JSON: '' @ m),
              Log ''info'' (''Retrying JSON parsing with cleanup attempt '' @ show_nat (Suc 0) @ ''/3'')]"
  have p0: "processGeminiResponse parse gemini s numTasks 0 = (?L0 @ ?L1 @ fst ?R, snd ?R)"
    using r(1) by (simp add: process_bad_again [OF span_s bad, of 0] p1 Let_def)
  let ?before = "?L0 @ ?L1 @ [Log ''info'' ''Asking Gemini to fix the JSON response...'']"
  have "fst (processGeminiResponse parse gemini s numTasks 0) = ?before @ Repair 2 # after"
    by (simp add: p0 after)
  moreover have "cleanups ?before = [''Retrying JSON parsing with cleanup attempt 1/3'',
                               ''Retrying JSON parsing with cleanup attempt 2/3'',
                               ''Retrying JSON parsing with cleanup attempt 3/3'']"
    by (simp add: e2 show_nat_small two)
  moreover have "repairs ?before = []" by (simp add: e2)
  moreover have "snd (processGeminiResponse parse gemini s numTasks 0) = Promised (Inl e)"
    by (simp add: p0 r(1) p)
  ultimately show ?thesis using after_repairs by blast
qed

text \<open>
  What the one retry counter of \<open>processGeminiResponse\<close> allows, in every run from
  retry count 0: at most two repair requests are sent, the call never throws, and it
  fails only after a repair request. When the first \<open>{\<close> of the text comes before its
  last \<open>}\<close> and the parse or the tasks check fails on the span of the text and on the
  span of every response to a repair request, the cleanup is tried three times
  (attempts 1/3, 2/3, 3/3), then one repair request is sent, at retry count 2, and the
  run ends in a rejected promise.
\<close>

lemma processGeminiResponse_cleanup_then_repair:
  "let run = processGeminiResponse parse gemini s numTasks 0 in
     length (repairs (fst run)) \<le> 2
   \<and> (\<forall>e. snd run \<noteq> Threw e)
   \<and> (\<forall>e. snd run = Promised (Inl e) \<longrightarrow> repairs (fst run) \<noteq> [])
   \<and> (indexOf s CHR ''{'' \<noteq> - 1 \<and> indexOf s CHR ''{'' < lastIndexOf s CHR ''}''
      \<and> (\<forall>c. json_span s = Some c \<longrightarrow> isl (parse_and_check parse c))
      \<and> (\<forall>k content fixedContent c.
             gemini k content = Inr fixedContent \<and> json_span fixedContent = Some c
             \<longrightarrow> isl (parse_and_check parse c))
      \<longrightarrow> (\<exists>before after e.
             fst run = before @ Repair 2 # after
           \<and> cleanups before = [''Retrying JSON parsing with cleanup attempt 1/3'',
                                 ''Retrying JSON parsing with cleanup attempt 2/3'',
                                 ''Retrying JSON parsing with cleanup attempt 3/3'']
           \<and> repairs before = [] \<and> repairs after = []
           \<and> snd run = Promised (Inl e)))"
proof -
  let ?run = "processGeminiResponse parse gemini s numTasks 0"
  note facts = process_facts
    [where parse = parse and gemini = gemini and s = s and numTasks = numTasks and n = 0]
  have "length (repairs (fst ?run)) \<le> 2"
    using facts(1) by (rule rising_length)
  moreover have "\<forall>e. snd ?run \<noteq> Threw e"
    using facts(3) by auto
  moreover have "\<forall>e. snd ?run = Promised (Inl e) \<longrightarrow> repairs (fst ?run) \<noteq> []"
    using facts(4) by blast
  ultimately show ?thesis
    unfolding Let_def using keeps_failing_run [of s parse gemini numTasks] by blast
qed

text \<open>
  A run in which the text and every repaired response are \<open>{}\<close>, which parses and has
  no tasks array.
\<close>

lemma processGeminiResponse_cleanup_then_repair_witness:
  "\<exists>before after e.
      fst (processGeminiResponse parse_examples answer_empty_object ''{}'' 0 0) =
        before @ Repair 2 # after
    \<and> cleanups before = [''Retrying JSON parsing with cleanup attempt 1/3'',
                          ''Retrying JSON parsing with cleanup attempt 2/3'',
                          ''Retrying JSON parsing with cleanup attempt 3/3'']
    \<and> repairs before = [] \<and> repairs after = []
    \<and> snd (processGeminiResponse parse_examples answer_empty_object ''{}'' 0 0) =
        Promised (Inl e)"
proof -
  have first: "indexOf ''{}'' CHR ''{'' \<noteq> - 1" and order: "indexOf ''{}'' CHR ''{'' < lastIndexOf ''{}'' CHR ''}''"
    by (simp_all add: lastIndexOf_def)
  have span: "json_span ''{}'' = Some ''{}''"
    using json_span_braced [of "[]"] by simp
  have bad: "isl (parse_and_check parse_examples ''{}'')"
    by (simp add: parse_and_check_def parse_examples_def)
  have bad_text: "\<forall>c. json_span ''{}'' = Some c \<longrightarrow> isl (parse_and_check parse_examples c)"
    using span bad by simp
  have bad_answers: "\<forall>k content fixedContent c.
      answer_empty_object k content = Inr fixedContent \<and> json_span fixedContent = Some c
      \<longrightarrow> isl (parse_and_check parse_examples c)"
    using span bad by (auto simp: answer_empty_object_def)
  from processGeminiResponse_cleanup_then_repair
         [of parse_examples answer_empty_object "''{}''" 0]
       first order bad_text bad_answers
  show ?thesis unfolding Let_def by blast
qed

text \<open>
  C3. The claim at a text that keeps failing to parse: the response is \<open>{oops}\<close> and
  so is the answer to every repair request. The cleanup is tried three times, at retry
  counts 0, 1 and 2. The repair is guarded by \<open>retryCount < 2\<close> on the same counter,
  which the cleanups have moved to 2 by then: one repair request is sent, announced as
  attempt 2/2, its answer gets the cleanup at 3/3 once more, and the operation fails.
  The budget of two repair requests is spent only on a text with no braces, where no
  cleanup is tried: there the requests at retry counts 1 and 2 are both sent.
\<close>

theorem processGeminiResponse_single_repair:
  "repairs (fst (processGeminiResponse parse_examples answer_malformed ''{oops}'' 3 0)) = [2]
   \<and> cleanups (fst (processGeminiResponse parse_examples answer_malformed ''{oops}'' 3 0)) =
       [''Retrying JSON parsing with cleanup attempt 1/3'',
        ''Retrying JSON parsing with cleanup attempt 2/3'',
        ''Retrying JSON parsing with cleanup attempt 3/3'',
        ''Retrying JSON parsing with cleanup attempt 3/3'']
   \<and> Log ''info'' ''Retrying with Gemini to fix the response, attempt 2/2''
        \<in> set (fst (processGeminiResponse parse_examples answer_malformed ''{oops}'' 3 0))
   \<and> snd (processGeminiResponse parse_examples answer_malformed ''{oops}'' 3 0) =
       Promised (Inl (Error ''Failed to fix JSON response: Failed to process response: Failed to process response: Failed to parse JSON response after multiple attempts''))
   \<and> repairs (fst (processGeminiResponse parse_examples answer_prose ''no braces'' 3 0)) = [1, 2]
   \<and> cleanups (fst (processGeminiResponse parse_examples answer_prose ''no braces'' 3 0)) = []"
  by code_simp

text \<open>
  C5, as amended. The check of the PRD generation looks at \<open>tasks\<close> only: a parsed
  result whose \<open>tasks\<close> is an array is returned as it is, whatever else it holds, with
  one warning when the number of tasks is not the requested one; and every value a call
  ends with has a \<open>tasks\<close> array.
\<close>

theorem processGeminiResponse_accepts_tasks_array:
  "(json_span s = Some c \<and> parse c = Inr result \<and> tasks_array result = Inr tasks
      \<longrightarrow> processGeminiResponse parse gemini s numTasks n =
            ((if int (length tasks) \<noteq> numTasks then
                [Log ''warn'' (''Expected '' @ show_int numTasks @ '' tasks, but got '' @
                   show_nat (length tasks))]
              else []),
             Returned result))
   \<and> (\<forall>r. snd (processGeminiResponse parse gemini s numTasks n) = Returned r
           \<or> snd (processGeminiResponse parse gemini s numTasks n) = Promised (Inr r)
        \<longrightarrow> (\<exists>tasks. tasks_array r = Inr tasks))"
proof (intro conjI impI allI)
  assume "json_span s = Some c \<and> parse c = Inr result \<and> tasks_array result = Inr tasks"
  then have span: "json_span s = Some c" and ok: "parse_and_check parse c = Inr (result, tasks)"
    by (simp_all add: parse_and_check_def)
  then show "processGeminiResponse parse gemini s numTasks n =
            ((if int (length tasks) \<noteq> numTasks then
                [Log ''warn'' (''Expected '' @ show_int numTasks @ '' tasks, but got '' @
                   show_nat (length tasks))]
              else []),
             Returned result)"
    by (rule process_ok)
next
  fix r
  note facts = process_facts
    [where parse = parse and gemini = gemini and s = s and numTasks = numTasks and n = n]
  assume "snd (processGeminiResponse parse gemini s numTasks n) = Returned r
           \<or> snd (processGeminiResponse parse gemini s numTasks n) = Promised (Inr r)"
  then have "accepted_from parse gemini s r"
    using facts(2) facts(4) by blast
  then show "\<exists>tasks. tasks_array r = Inr tasks"
    by (rule accepted_has_tasks)
qed

theorem processGeminiResponse_accepts_tasks_array_witness:
  "processGeminiResponse parse_examples answer_empty_object tasks_only 3 0 =
     ([Log ''warn'' ''Expected 3 tasks, but got 0''], Returned (JObj [(''tasks'', JArr [])]))"
proof -
  have span: "json_span tasks_only = Some ''{\"tasks\":[]}''"
    by code_simp
  have parsed: "parse_examples ''{\"tasks\":[]}'' = Inr (JObj [(''tasks'', JArr [])])"
    by (simp add: parse_examples_def)
  have tasks: "tasks_array (JObj [(''tasks'', JArr [])]) = Inr []"
    by simp
  have three: "show_int 3 = ''3''" and zero: "show_nat 0 = ''0''"
    by code_simp+
  from processGeminiResponse_accepts_tasks_array
         [of tasks_only "''{\"tasks\":[]}''" parse_examples "JObj [(''tasks'', JArr [])]" "[]"
             answer_empty_object 3 0]
       span parsed tasks
  show ?thesis by (simp add: three zero)
qed

text \<open>
  The claim C5 at a concrete input: a response with a \<open>tasks\<close> array and no
  \<open>metadata\<close> is accepted.
\<close>

theorem processGeminiResponse_no_metadata_counterexample:
  "snd (processGeminiResponse parse_examples answer_empty_object tasks_only 0 0) =
     Returned (JObj [(''tasks'', JArr [])])
   \<and> map_of [(''tasks'', JArr [])] ''metadata'' = None"
  by code_simp

section \<open>A missing key of the research provider\<close>

declare expandTaskWithResearch.simps [simp del]

lemma waits_append [simp]: "waits (xs @ ys) = waits xs @ waits ys"
  by (induction xs rule: waits.induct) auto

lemma researches_append [simp]: "researches (xs @ ys) = researches xs @ researches ys"
  by (induction xs rule: researches.induct) auto

lemma expandTaskWithGemini_quiet:
  "waits (fst (expandTaskWithGemini taskData generated)) = []"
  "researches (fst (expandTaskWithGemini taskData generated)) = []"
  by (cases generated; simp add: expandTaskWithGemini_def)+

lemma getPerplexityClient_missing:
  assumes "key = None \<or> key = Some []"
  shows "getPerplexityClient key None =
           (Inl (Error ''PERPLEXITY_API_KEY environment variable is missing. Set it to use research-backed features.''),
            None)"
  using assms by (auto simp: getPerplexityClient_def)

lemma missing_key_retry:
  assumes "key = None \<or> key = Some []" and "n < 2"
  shows "researches (fst (expandTaskWithResearch key pm research refine expand taskData None n)) =
           n # researches (fst (expandTaskWithResearch key pm research refine expand taskData None (Suc n)))"
    and "waits (fst (expandTaskWithResearch key pm research refine expand taskData None n)) =
           (n + 1) * 5000 # waits (fst (expandTaskWithResearch key pm research refine expand taskData None (Suc n)))"
    and "snd (expandTaskWithResearch key pm research refine expand taskData None n) =
           snd (expandTaskWithResearch key pm research refine expand taskData None (Suc n))"
  using assms(2)
  by (simp_all add: expandTaskWithResearch.simps [of key pm research refine expand taskData None n]
        getPerplexityClient_missing [OF assms(1)] Let_def)

lemma missing_key_fallback:
  assumes "key = None \<or> key = Some []" and "\<not> n < 2"
  shows "researches (fst (expandTaskWithResearch key pm research refine expand taskData None n)) = [n]"
    and "waits (fst (expandTaskWithResearch key pm research refine expand taskData None n)) = []"
    and "snd (expandTaskWithResearch key pm research refine expand taskData None n) =
           (snd (expandTaskWithGemini taskData expand), None)"
  using assms(2)
  by (simp_all add: expandTaskWithResearch.simps [of key pm research refine expand taskData None n]
        getPerplexityClient_missing [OF assms(1)] Let_def expandTaskWithGemini_quiet)

text \<open>
  C4, as amended. While \<open>PERPLEXITY_API_KEY\<close> is not set (or empty) and no client
  exists, \<open>getPerplexityClient\<close> throws the missing-key error and creates no client.
  \<open>expandTaskWithResearch\<close> does not tell this error from any other: from retry count 0
  it uses the provider three times, waits 5000 and 10000 ms in between, and then settles
  as the fallback \<open>expandTaskWithGemini\<close> does, without research.
\<close>

theorem expandTaskWithResearch_missing_key:
  assumes "key = None \<or> key = Some []"
  shows "fst (getPerplexityClient key None) =
           Inl (Error ''PERPLEXITY_API_KEY environment variable is missing. Set it to use research-backed features.'')
       \<and> snd (getPerplexityClient key None) = None
       \<and> (let run = expandTaskWithResearch key perplexityModel research refine expand taskData None 0
          in researches (fst run) = [0, 1, 2]
           \<and> waits (fst run) = [5000, 10000]
           \<and> snd run = (snd (expandTaskWithGemini taskData expand), None))"
proof -
  note step0 = missing_key_retry [OF assms, of 0 perplexityModel research refine expand taskData]
  note step1 = missing_key_retry [OF assms, of "Suc 0" perplexityModel research refine expand taskData]
  note last = missing_key_fallback [OF assms, of 2 perplexityModel research refine expand taskData]
  have two: "Suc (Suc 0) = 2" by simp
  from step0 step1 last show ?thesis
    by (simp add: getPerplexityClient_missing [OF assms] Let_def two)
qed

theorem expandTaskWithResearch_missing_key_witness:
  "researches (fst (expandTaskWithResearch None None research_ok refine_ok (Inr ''plain plan'') login_task None 0)) = [0, 1, 2]
   \<and> waits (fst (expandTaskWithResearch None None research_ok refine_ok (Inr ''plain plan'') login_task None 0)) = [5000, 10000]
   \<and> snd (expandTaskWithResearch None None research_ok refine_ok (Inr ''plain plan'') login_task None 0) = (Inr ''plain plan'', None)"
  using expandTaskWithResearch_missing_key
          [of None None research_ok refine_ok "Inr ''plain plan''" login_task]
  by (simp add: Let_def expandTaskWithGemini_def)

text \<open>
  The claim C4 at a concrete run with no key: the missing-key error is retried twice,
  and the operation succeeds with the text of the fallback.
\<close>

theorem expandTaskWithResearch_retries_missing_key_counterexample:
  "waits (fst (expandTaskWithResearch None None research_ok refine_ok (Inr ''plain plan'') login_task None 0)) = [5000, 10000]
   \<and> fst (snd (expandTaskWithResearch None None research_ok refine_ok (Inr ''plain plan'') login_task None 0)) = Inr ''plain plan''"
  by code_simp

section \<open>The ids of the subtasks\<close>

lemma number_subtasks_length: "length (number_subtasks parentTaskId xs) = length xs"
  by (simp add: number_subtasks_def)

lemma number_subtasks_nth:
  "i < length xs \<Longrightarrow> number_subtasks parentTaskId xs ! i = with_id parentTaskId i (xs ! i)"
  by (simp add: number_subtasks_def nth_enumerate_eq)

lemma number_subtasks_numbered: "numbered parentTaskId (number_subtasks parentTaskId xs)"
  unfolding numbered_def
proof (intro allI impI)
  fix i
  assume "i < length (number_subtasks parentTaskId xs)"
  then have i: "i < length xs" by (simp add: number_subtasks_length)
  have "map_of (AList.update ''id'' (JStr (String_of parentTaskId @ ''.'' @ show_nat (i + 1)))
                  (spread (xs ! i))) ''id''
        = Some (JStr (String_of parentTaskId @ ''.'' @ show_nat (i + 1)))"
    by (simp add: update_conv')
  then show "\<exists>entries. number_subtasks parentTaskId xs ! i = JObj entries \<and>
        map_of entries ''id'' = Some (JStr (String_of parentTaskId @ ''.'' @ show_nat (i + 1)))"
    by (simp add: number_subtasks_nth [OF i] with_id_def)
qed

lemma parsed_array_Some:
  "parsed_array parse response = Some xs \<longleftrightarrow>
   parse (jsonText fenced_array bare_array response) = Inr (JArr xs)"
  by (auto simp: parsed_array_def split: sum.splits json.splits)

lemma fix_returns:
  assumes "snd (fixSubtasksJson parse repair problematicJson parentTaskId numSubtasks) = Inr subtasks"
  shows "\<exists>response xs. repair problematicJson = Inr response \<and> parsed_array parse response = Some xs
           \<and> subtasks = number_subtasks parentTaskId xs"
proof (cases "repair problematicJson")
  case (Inl error)
  with assms show ?thesis by (simp add: fixSubtasksJson_def)
next
  case (Inr response)
  show ?thesis
  proof (cases "parsed_array parse response")
    case None
    with assms Inr show ?thesis
      by (auto simp: fixSubtasksJson_def parsed_array_def split: sum.splits json.splits)
  next
    case (Some xs)
    with assms Inr have "subtasks = number_subtasks parentTaskId xs"
      by (auto simp: fixSubtasksJson_def parsed_array_def split: sum.splits json.splits)
    with Inr Some show ?thesis by blast
  qed
qed

lemma fix_array:
  assumes "repair problematicJson = Inr response" and "parsed_array parse response = Some xs"
  shows "fixSubtasksJson parse repair problematicJson parentTaskId numSubtasks =
           ([Log ''info'' ''Attempting to fix malformed subtasks JSON...''],
            Inr (number_subtasks parentTaskId xs))"
  using assms by (simp add: fixSubtasksJson_def parsed_array_Some)

lemma create_array:
  assumes "generated = Inr response" and "parsed_array parse response = Some xs"
  shows "createSubtasksWithGemini parse research generated repair taskData numSubtasks =
           ([Log ''info'' (''Creating '' @ show_int numSubtasks @ '' subtasks for task '' @
               String_of (task_id taskData) @ '': \"'' @ task_title taskData @ ''\"...'')] @
            research_step ''subtask creation'' research @
            (if int (length xs) \<noteq> numSubtasks then
               [Log ''warn'' (''Expected '' @ show_int numSubtasks @ '' subtasks, but got '' @
                  show_nat (length xs))]
             else []),
            Inr (number_subtasks (task_id taskData) xs))"
  using assms by (simp add: createSubtasksWithGemini_def parsed_array_Some Let_def)

lemma create_returns:
  assumes "snd (createSubtasksWithGemini parse research generated repair taskData numSubtasks) = Inr subtasks"
  shows "\<exists>xs. subtasks = number_subtasks (task_id taskData) xs"
proof (cases generated)
  case (Inl error)
  with assms show ?thesis by (simp add: createSubtasksWithGemini_def Let_def)
next
  case (Inr response)
  show ?thesis
  proof (cases "parsed_array parse response")
    case (Some xs)
    with assms Inr show ?thesis by (auto simp: create_array)
  next
    case None
    let ?fixed = "fixSubtasksJson parse repair response (task_id taskData) numSubtasks"
    from None Inr assms have "snd ?fixed = Inr subtasks"
      by (auto simp: createSubtasksWithGemini_def parsed_array_def Let_def
               split: sum.splits json.splits)
    from fix_returns [OF this] show ?thesis by blast
  qed
qed

text \<open>
  The ids and the lengths. Every array that \<open>createSubtasksWithGemini\<close> returns, from
  its own parse or from \<open>fixSubtasksJson\<close>, and every array that \<open>fixSubtasksJson\<close>
  returns, has at position \<open>i\<close> an object whose \<open>id\<close> is the text
  \<open><parentTaskId>.<i + 1>\<close>, whatever the model wrote there. An array parsed from the
  response is returned with the length it has, and the parse of
  \<open>createSubtasksWithGemini\<close> itself logs a warning when that length is not the
  requested one.
\<close>

lemma task_subtasks_numbered:
  "(\<forall>subtasks.
       snd (createSubtasksWithGemini parse research generated repair taskData numSubtasks) = Inr subtasks
       \<longrightarrow> numbered (task_id taskData) subtasks)
   \<and> (\<forall>subtasks.
       snd (fixSubtasksJson parse repair problematicJson parentTaskId numSubtasks) = Inr subtasks
       \<longrightarrow> numbered parentTaskId subtasks)
   \<and> (\<forall>response xs.
       generated = Inr response \<and> parse (jsonText fenced_array bare_array response) = Inr (JArr xs)
       \<longrightarrow> (\<exists>subtasks.
              snd (createSubtasksWithGemini parse research generated repair taskData numSubtasks) = Inr subtasks
            \<and> length subtasks = length xs
            \<and> (int (length xs) \<noteq> numSubtasks \<longrightarrow>
                 Log ''warn'' (''Expected '' @ show_int numSubtasks @ '' subtasks, but got '' @
                    show_nat (length xs))
                 \<in> set (fst (createSubtasksWithGemini parse research generated repair taskData numSubtasks)))))
   \<and> (\<forall>response xs.
       repair problematicJson = Inr response \<and> parse (jsonText fenced_array bare_array response) = Inr (JArr xs)
       \<longrightarrow> (\<exists>subtasks.
              snd (fixSubtasksJson parse repair problematicJson parentTaskId numSubtasks) = Inr subtasks
            \<and> length subtasks = length xs))"
proof (intro conjI allI impI)
  fix subtasks
  assume "snd (createSubtasksWithGemini parse research generated repair taskData numSubtasks) = Inr subtasks"
  from create_returns [OF this] show "numbered (task_id taskData) subtasks"
    by (auto simp: number_subtasks_numbered)
next
  fix subtasks
  assume "snd (fixSubtasksJson parse repair problematicJson parentTaskId numSubtasks) = Inr subtasks"
  from fix_returns [OF this] show "numbered parentTaskId subtasks"
    by (auto simp: number_subtasks_numbered)
next
  fix response xs
  assume "generated = Inr response \<and> parse (jsonText fenced_array bare_array response) = Inr (JArr xs)"
  then have g: "generated = Inr response" and p: "parsed_array parse response = Some xs"
    by (simp_all add: parsed_array_def)
  show "\<exists>subtasks.
          snd (createSubtasksWithGemini parse research generated repair taskData numSubtasks) = Inr subtasks
        \<and> length subtasks = length xs
        \<and> (int (length xs) \<noteq> numSubtasks \<longrightarrow>
             Log ''warn'' (''Expected '' @ show_int numSubtasks @ '' subtasks, but got '' @
                show_nat (length xs))
             \<in> set (fst (createSubtasksWithGemini parse research generated repair taskData numSubtasks)))"
    by (simp add: create_array [OF g p] number_subtasks_length)
next
  fix response xs
  assume "repair problematicJson = Inr response \<and> parse (jsonText fenced_array bare_array response) = Inr (JArr xs)"
  then have f: "repair problematicJson = Inr response" and p: "parsed_array parse response = Some xs"
    by (simp_all add: parsed_array_def)
  show "\<exists>subtasks.
          snd (fixSubtasksJson parse repair problematicJson parentTaskId numSubtasks) = Inr subtasks
        \<and> length subtasks = length xs"
    using fix_array [of repair problematicJson response parse xs parentTaskId numSubtasks] f p
    by (simp add: number_subtasks_length)
qed

text \<open>A run in which the model returns two subtasks where three were asked for.\<close>

lemma task_subtasks_numbered_witness:
  "\<exists>subtasks.
      snd (createSubtasksWithGemini parse_examples None (Inr two_subtasks) repair_one_subtask
             login_task 3) = Inr subtasks
    \<and> length subtasks = 2
    \<and> numbered (JNum 1) subtasks
    \<and> Log ''warn'' ''Expected 3 subtasks, but got 2''
         \<in> set (fst (createSubtasksWithGemini parse_examples None (Inr two_subtasks)
                        repair_one_subtask login_task 3))"
proof -
  let ?xs = "[JObj [(''id'', JNum 7), (''title'', JStr ''A'')], JObj [(''title'', JStr ''B'')]]"
  let ?run = "createSubtasksWithGemini parse_examples None (Inr two_subtasks) repair_one_subtask
                login_task 3"
  have parsed: "parse_examples (jsonText fenced_array bare_array two_subtasks) = Inr (JArr ?xs)"
    by code_simp
  have texts: "show_int 3 = ''3''" "show_nat (Suc (Suc 0)) = ''2''"
    by code_simp+
  have id: "task_id login_task = JNum 1"
    by (simp add: login_task_def)
  note inst = task_subtasks_numbered
         [of parse_examples None "Inr two_subtasks" repair_one_subtask login_task 3 "[]" JNull]
  from inst have all_numbered: "\<forall>subtasks. snd ?run = Inr subtasks \<longrightarrow> numbered (JNum 1) subtasks"
    by (simp only: id) blast
  from inst parsed obtain subtasks where
    ran: "snd ?run = Inr subtasks" and len: "length subtasks = length ?xs"
    and warned: "int (length ?xs) \<noteq> 3 \<longrightarrow>
       Log ''warn'' (''Expected '' @ show_int 3 @ '' subtasks, but got '' @ show_nat (length ?xs))
         \<in> set (fst ?run)"
    by blast
  from all_numbered ran have "numbered (JNum 1) subtasks" by blast
  moreover from len have "length subtasks = 2" by simp
  moreover from warned have "Log ''warn'' ''Expected 3 subtasks, but got 2'' \<in> set (fst ?run)"
    by (simp add: texts)
  ultimately show ?thesis using ran by blast
qed

text \<open>
  C6. The claim at a run through the repair path: three subtasks are asked for task 1,
  the response of the model is not JSON, and the answer to the repair request holds one
  subtask with the id \<open>9.9\<close>. The id is overwritten to \<open>1.1\<close> and the array of one is
  returned, but nothing is logged at level \<open>warn\<close>: \<open>fixSubtasksJson\<close> uses
  \<open>numSubtasks\<close> in its prompt only. When the first response parses to two subtasks,
  the parse of \<open>createSubtasksWithGemini\<close> itself logs the warning.
\<close>

theorem fixSubtasksJson_no_length_warning:
  "fixSubtasksJson parse_examples repair_one_subtask ''Sure'' (JNum 1) 3 =
     ([Log ''info'' ''Attempting to fix malformed subtasks JSON...''],
      Inr [JObj [(''id'', JStr ''1.1'')]])
   \<and> snd (createSubtasksWithGemini parse_examples None (Inr ''Sure'') repair_one_subtask
            login_task 3) = Inr [JObj [(''id'', JStr ''1.1'')]]
   \<and> warnings (fst (createSubtasksWithGemini parse_examples None (Inr ''Sure'') repair_one_subtask
                      login_task 3)) = []
   \<and> warnings (fst (createSubtasksWithGemini parse_examples None (Inr two_subtasks)
                      repair_one_subtask login_task 3)) = [''Expected 3 subtasks, but got 2'']"
  by code_simp


section \<open>The task id of a complexity report\<close>

lemma assign_snoc: "assign target (source @ [(k, v)]) = AList.update k v (assign target source)"
  by (simp add: assign_def)

lemma map_of_assign:
  "map_of (assign target source) k =
     (case map_of (rev source) k of Some v \<Rightarrow> Some v | None \<Rightarrow> map_of target k)"
proof (induction source rule: rev_induct)
  case Nil
  then show ?case by (simp add: assign_def)
next
  case (snoc entry source)
  obtain a b where entry: "entry = (a, b)" by (cases entry)
  show ?case
    unfolding entry assign_snoc using snoc by (simp add: update_conv')
qed

lemma parse_failure_message:
  "handleGeminiError (Error ''Failed to parse complexity analysis'') =
     ''Error communicating with Gemini: Failed to parse complexity analysis''"
  by code_simp

text \<open>
  The properties of the returned report. When the text found in the response parses,
  \<open>analyzeTaskComplexity\<close> returns an object with the properties of the parsed
  value, read with the later entry of a key first, and with the caller's \<open>taskData.id\<close>
  as \<open>taskId\<close> where the parsed value has none. When the text does not parse, the call
  fails with the user message of the parse failure.
\<close>

lemma analyzeTaskComplexity_taskId:
  assumes "generated = Inr response"
  shows "(\<forall>complexityData.
            parse (jsonText fenced_object bare_object response) = Inr complexityData
            \<longrightarrow> (\<exists>entries.
                   snd (analyzeTaskComplexity parse research generated taskData) = Inr (JObj entries)
                 \<and> (\<forall>k. map_of entries k =
                      (case map_of (rev (spread complexityData)) k of
                         Some v \<Rightarrow> Some v
                       | None \<Rightarrow> if k = ''taskId'' then Some (task_id taskData) else None))))
       \<and> (\<forall>m. parse (jsonText fenced_object bare_object response) = Inl m
            \<longrightarrow> snd (analyzeTaskComplexity parse research generated taskData) =
                  Inl (Error ''Error communicating with Gemini: Failed to parse complexity analysis''))"
  using assms
  by (auto simp add: analyzeTaskComplexity_def Let_def map_of_assign parse_failure_message
           split: option.splits)

text \<open>A report without a \<open>taskId\<close>, and a response that is no report.\<close>

lemma analyzeTaskComplexity_taskId_witness:
  "(\<exists>entries.
      snd (analyzeTaskComplexity parse_examples None (Inr report_plain) login_task) =
        Inr (JObj entries)
    \<and> map_of entries ''taskId'' = Some (JNum 1)
    \<and> map_of entries ''complexityScore'' = Some (JNum 5))
   \<and> snd (analyzeTaskComplexity parse_examples None (Inr ''no report'') login_task) =
     Inl (Error ''Error communicating with Gemini: Failed to parse complexity analysis'')"
proof -
  have bad: "parse_examples (jsonText fenced_object bare_object ''no report'') =
               Inl ''Unexpected token''"
    by code_simp
  have good: "parse_examples (jsonText fenced_object bare_object report_plain) =
                Inr (JObj [(''complexityScore'', JNum 5)])"
    by code_simp
  have id: "task_id login_task = JNum 1"
    by (simp add: login_task_def)
  from analyzeTaskComplexity_taskId
         [of "Inr report_plain" report_plain parse_examples None login_task]
       good
  obtain entries where
    ran: "snd (analyzeTaskComplexity parse_examples None (Inr report_plain) login_task) =
            Inr (JObj entries)"
    and fields: "\<forall>k. map_of entries k =
            (case map_of (rev (spread (JObj [(''complexityScore'', JNum 5)]))) k of
               Some v \<Rightarrow> Some v
             | None \<Rightarrow> if k = ''taskId'' then Some (task_id login_task) else None)"
    by blast
  from fields have "map_of entries ''taskId'' = Some (JNum 1)"
    by (simp add: id)
  moreover from fields have "map_of entries ''complexityScore'' = Some (JNum 5)"
    by simp
  moreover from analyzeTaskComplexity_taskId
         [of "Inr ''no report''" "''no report''" parse_examples None login_task]
       bad
  have "snd (analyzeTaskComplexity parse_examples None (Inr ''no report'') login_task) =
     Inl (Error ''Error communicating with Gemini: Failed to parse complexity analysis'')"
    by simp
  ultimately show ?thesis using ran by blast
qed

text \<open>
  C9. The claim at a report that carries a \<open>taskId\<close> of its own: the caller's task has
  the id 1, the report in the response has the \<open>taskId\<close> 99, and the returned
  \<open>taskId\<close> is 99. The object literal writes \<open>taskId\<close> first and spreads the parsed
  report after it, so the report's own \<open>taskId\<close> replaces the caller's. A report
  without one gets the caller's id.
\<close>

theorem analyzeTaskComplexity_taskId_replaced:
  "task_id login_task = JNum 1
   \<and> snd (analyzeTaskComplexity parse_examples None (Inr report_with_taskId) login_task) =
       Inr (JObj [(''taskId'', JNum 99), (''complexityScore'', JNum 5)])
   \<and> snd (analyzeTaskComplexity parse_examples None (Inr report_plain) login_task) =
       Inr (JObj [(''taskId'', JNum 1), (''complexityScore'', JNum 5)])"
  by code_simp

section \<open>The free-standing subtask parser: fallback, renumbering, dependencies\<close>

lemma locate_array_empty: "locate_array [] = None"
  by code_simp



text \<open>
  C1. When the text is empty, holds no array, or holds one that does not parse, the
  parser returns (it has no way to fail) exactly \<open>numSubtasks\<close> placeholders, the one
  at position \<open>i\<close> being \<open>{id: startId + i, title: "Subtask <i + 1>", description:
  "Auto-generated fallback subtask", status: "pending", dependencies: [],
  parentTaskId}\<close>.
\<close>

theorem parseSubtasksFromText_fallback:
  assumes "s = [] \<or> locate_array s = None \<or>
           (\<exists>found m. locate_array s = Some found \<and> parse found = Inl m)"
  shows "parseSubtasksFromText parse s startId numSubtasks parentTaskId =
           map (\<lambda>i. JObj [(''id'', JNum (startId + int i)),
                           (''title'', JStr (''Subtask '' @ show_nat (i + 1))),
                           (''description'', JStr ''Auto-generated fallback subtask''),
                           (''status'', JStr ''pending''),
                           (''dependencies'', JArr []),
                           (''parentTaskId'', parentTaskId)])
               [0..<numSubtasks]
       \<and> length (parseSubtasksFromText parse s startId numSubtasks parentTaskId) = numSubtasks"
proof -
  have fallback: "parseSubtasksFromText parse s startId numSubtasks parentTaskId =
                    fallback_subtasks startId numSubtasks parentTaskId"
  proof (cases "locate_array s")
    case None
    then show ?thesis by (simp add: parseSubtasksFromText_def)
  next
    case (Some found)
    with assms locate_array_empty obtain m where "parse found = Inl m" by auto
    with Some show ?thesis by (simp add: parseSubtasksFromText_def)
  qed
  have "fallback_subtasks startId numSubtasks parentTaskId =
           map (\<lambda>i. JObj [(''id'', JNum (startId + int i)),
                           (''title'', JStr (''Subtask '' @ show_nat (i + 1))),
                           (''description'', JStr ''Auto-generated fallback subtask''),
                           (''status'', JStr ''pending''),
                           (''dependencies'', JArr []),
                           (''parentTaskId'', parentTaskId)])
               [0..<numSubtasks]"
    unfolding fallback_subtasks_def placeholder_def ..
  with fallback show ?thesis by simp
qed

theorem parseSubtasksFromText_fallback_witness:
  "parseSubtasksFromText parse_examples [] 1 2 (JNum 5) =
     [JObj [(''id'', JNum 1), (''title'', JStr ''Subtask 1''),
            (''description'', JStr ''Auto-generated fallback subtask''),
            (''status'', JStr ''pending''), (''dependencies'', JArr []),
            (''parentTaskId'', JNum 5)],
      JObj [(''id'', JNum 2), (''title'', JStr ''Subtask 2''),
            (''description'', JStr ''Auto-generated fallback subtask''),
            (''status'', JStr ''pending''), (''dependencies'', JArr []),
            (''parentTaskId'', JNum 5)]]"
proof -
  have names: "show_nat (Suc 0) = ''1''" "show_nat (Suc (Suc 0)) = ''2''"
    by code_simp+
  have range: "[0..<2] = [0, Suc 0]"
    by (simp add: upt_conv_Cons)
  from parseSubtasksFromText_fallback [of "[]" parse_examples 1 2 "JNum 5"]
  show ?thesis by (simp add: range names)
qed

subsection \<open>Renumbering\<close>






subsection \<open>Dependencies\<close>

lemma of_char_digit_char: "d < 10 \<Longrightarrow> (of_char (digit_char d) :: nat) = 48 + d"
  by (simp add: digit_char_def)

lemma is_digit_digit_char: "d < 10 \<Longrightarrow> is_digit (digit_char d)"
  by (simp add: is_digit_def of_char_digit_char)

lemma digits_value_snoc:
  "digits_value (ds @ [c]) = 10 * digits_value ds + ((of_char c :: nat) - 48)"
  by (simp add: digits_value_def)

lemma show_nat_digits:
  "show_nat n \<noteq> [] \<and> list_all is_digit (show_nat n) \<and> digits_value (show_nat n) = n"
proof (induction n rule: show_nat.induct)
  case (1 n)
  show ?case
  proof (cases "n < 10")
    case True
    then show ?thesis
      by (simp add: show_nat.simps [of n] is_digit_digit_char digits_value_def of_char_digit_char)
  next
    case False
    with 1 have ih: "show_nat (n div 10) \<noteq> []" "list_all is_digit (show_nat (n div 10))"
      "digits_value (show_nat (n div 10)) = n div 10"
      by simp_all
    have m: "n mod 10 < 10" by simp
    from False ih show ?thesis
      by (simp add: show_nat.simps [of n] is_digit_digit_char [OF m] digits_value_snoc
            of_char_digit_char [OF m])
  qed
qed

lemma minus_not_digit: "\<not> is_digit CHR ''-''"
  by (simp add: is_digit_def)

lemma parse_decimal_digits:
  assumes "ds \<noteq> []" and "list_all is_digit ds"
  shows "parse_decimal ds = Some (int (digits_value ds))"
    and "parse_decimal (CHR ''-'' # ds) = Some (- int (digits_value ds))"
proof -
  from assms obtain c cs where ds: "ds = c # cs" by (cases ds) auto
  with assms have "is_digit c" by simp
  with minus_not_digit have "c \<noteq> CHR ''-''" by auto
  with assms ds show "parse_decimal ds = Some (int (digits_value ds))"
    by (simp add: parse_decimal_def)
  from assms show "parse_decimal (CHR ''-'' # ds) = Some (- int (digits_value ds))"
    by (simp add: parse_decimal_def)
qed

lemma parse_decimal_show_int: "parse_decimal (show_int n) = Some n"
proof (cases "n < 0")
  case True
  with parse_decimal_digits(2) [of "show_nat (nat (- n))"] show_nat_digits [of "nat (- n)"]
  show ?thesis by (simp add: show_int_def)
next
  case False
  with parse_decimal_digits(1) [of "show_nat (nat n)"] show_nat_digits [of "nat n"]
  show ?thesis by (simp add: show_int_def)
qed

lemma parse_decimal_None_iff:
  "parse_decimal s = None \<longleftrightarrow>
     (\<forall>ds. ds \<noteq> [] \<and> list_all is_digit ds \<longrightarrow> s \<noteq> ds \<and> s \<noteq> CHR ''-'' # ds)"
proof
  assume none: "parse_decimal s = None"
  show "\<forall>ds. ds \<noteq> [] \<and> list_all is_digit ds \<longrightarrow> s \<noteq> ds \<and> s \<noteq> CHR ''-'' # ds"
  proof (intro allI impI)
    fix ds assume "ds \<noteq> [] \<and> list_all is_digit ds"
    then have "parse_decimal ds \<noteq> None" "parse_decimal (CHR ''-'' # ds) \<noteq> None"
      using parse_decimal_digits [of ds] by simp_all
    with none show "s \<noteq> ds \<and> s \<noteq> CHR ''-'' # ds" by auto
  qed
next
  assume no: "\<forall>ds. ds \<noteq> [] \<and> list_all is_digit ds \<longrightarrow> s \<noteq> ds \<and> s \<noteq> CHR ''-'' # ds"
  show "parse_decimal s = None"
  proof (cases s)
    case Nil
    then show ?thesis by (simp add: parse_decimal_def)
  next
    case (Cons c cs)
    show ?thesis
    proof (cases "c = CHR ''-''")
      case True
      with no Cons have "\<not> (cs \<noteq> [] \<and> list_all is_digit cs)" by blast
      with True Cons show ?thesis by (simp add: parse_decimal_def)
    next
      case False
      from no Cons have "\<not> list_all is_digit (c # cs)" by blast
      with False Cons show ?thesis by (simp add: parse_decimal_def)
    qed
  qed
qed

lemma coerce_dependency_None_iff:
  "coerce_dependency d = None \<longleftrightarrow>
     (\<forall>n. d \<noteq> JNum n)
     \<and> (\<forall>ds. ds \<noteq> [] \<and> list_all is_digit ds \<longrightarrow> d \<noteq> JStr ds \<and> d \<noteq> JStr (CHR ''-'' # ds))"
  by (cases d) (simp_all add: parse_decimal_None_iff)

lemma coerce_Cons:
  "coerce_dependencies (d # ds) =
     (case coerce_dependency d of None \<Rightarrow> coerce_dependencies ds
      | Some n \<Rightarrow> JNum n # coerce_dependencies ds)"
  by (simp add: coerce_dependencies_def map_filter_simps split: option.splits)

lemma coerce_append:
  "coerce_dependencies (xs @ ys) = coerce_dependencies xs @ coerce_dependencies ys"
  by (simp add: coerce_dependencies_def map_filter_def)

lemma coerce_mixed:
  "coerce_dependencies (map (\<lambda>x. case x of Inl k \<Rightarrow> JNum k | Inr k \<Rightarrow> JStr (show_int k)) xs) =
     map (\<lambda>x. JNum (case x of Inl k \<Rightarrow> k | Inr k \<Rightarrow> k)) xs"
  by (induction xs)
     (simp_all add: coerce_dependencies_def map_filter_simps parse_decimal_show_int
        split: sum.splits)

lemma map_filter_coerced: "List.map_filter coerce_dependency (map JNum ns) = ns"
  by (induction ns) (simp_all add: map_filter_simps)

lemma coerce_length:
  "length (coerce_dependencies deps) =
     length deps - length (filter (\<lambda>d. coerce_dependency d = None) deps)"
proof -
  have "length (filter (\<lambda>d. coerce_dependency d \<noteq> None) deps) +
        length (filter (\<lambda>d. \<not> coerce_dependency d \<noteq> None) deps) = length deps"
    by (rule sum_length_filter_compl)
  then show ?thesis
    by (simp add: coerce_dependencies_def map_filter_def)
qed

text \<open>
  C8. The coercion of a dependency list always gives a list of plain integers. A number
  is kept. A numeric string becomes its value: the decimal text of every integer \<open>n\<close>
  is coerced to \<open>n\<close>, and so is every nonempty run of digits, with or without a
  minus sign before it, to the number it denotes. An entry is dropped exactly when it
  is neither a number nor such a string. A list that mixes numbers and numeric strings
  is coerced entry by entry to the list of their values, nothing dropped; in any list
  the entries are coerced in place, in their order. The length of the result is that of
  the input less the dropped entries; coercing a coerced list, or any list of integers,
  changes nothing; and a parsed subtask with a \<open>dependencies\<close> array carries the
  coerced array.
\<close>

theorem coerce_dependencies_idempotent_total:
  "(\<forall>d \<in> set (coerce_dependencies deps). \<exists>k. d = JNum k)
   \<and> coerce_dependency (JNum n) = Some n
   \<and> coerce_dependency (JStr (show_int n)) = Some n
   \<and> (digits \<noteq> [] \<and> list_all is_digit digits \<longrightarrow>
        coerce_dependency (JStr digits) = Some (int (digits_value digits))
      \<and> coerce_dependency (JStr (CHR ''-'' # digits)) = Some (- int (digits_value digits)))
   \<and> digits_value (show_nat m) = m
   \<and> (coerce_dependency d = None \<longleftrightarrow>
        (\<forall>k. d \<noteq> JNum k)
      \<and> (\<forall>ds. ds \<noteq> [] \<and> list_all is_digit ds \<longrightarrow> d \<noteq> JStr ds \<and> d \<noteq> JStr (CHR ''-'' # ds)))
   \<and> coerce_dependencies
         (map (\<lambda>x. case x of Inl k \<Rightarrow> JNum k | Inr k \<Rightarrow> JStr (show_int k)) mixed) =
       map (\<lambda>x. JNum (case x of Inl k \<Rightarrow> k | Inr k \<Rightarrow> k)) mixed
   \<and> coerce_dependencies (before @ d # after) =
       coerce_dependencies before @
       (case coerce_dependency d of None \<Rightarrow> [] | Some k \<Rightarrow> [JNum k]) @
       coerce_dependencies after
   \<and> length (coerce_dependencies deps) =
       length deps -
       length (filter (\<lambda>d. (\<forall>k. d \<noteq> JNum k)
                          \<and> (\<forall>ds. ds \<noteq> [] \<and> list_all is_digit ds \<longrightarrow>
                                  d \<noteq> JStr ds \<and> d \<noteq> JStr (CHR ''-'' # ds))) deps)
   \<and> coerce_dependencies (coerce_dependencies deps) = coerce_dependencies deps
   \<and> coerce_dependencies (map JNum ns) = map JNum ns
   \<and> (map_of entries ''dependencies'' = Some (JArr deps)
      \<longrightarrow> (\<exists>es. normalize_subtask startId parentTaskId index entries = JObj es
              \<and> map_of es ''dependencies'' = Some (JArr (coerce_dependencies deps))))"
proof (intro conjI impI)
  show "\<forall>d \<in> set (coerce_dependencies deps). \<exists>k. d = JNum k"
    by (auto simp: coerce_dependencies_def)
  show "coerce_dependency (JNum n) = Some n"
    by simp
  show "coerce_dependency (JStr (show_int n)) = Some n"
    by (simp add: parse_decimal_show_int)
  show "digits_value (show_nat m) = m"
    by (simp add: show_nat_digits)
  show "coerce_dependency d = None \<longleftrightarrow>
        (\<forall>k. d \<noteq> JNum k)
      \<and> (\<forall>ds. ds \<noteq> [] \<and> list_all is_digit ds \<longrightarrow> d \<noteq> JStr ds \<and> d \<noteq> JStr (CHR ''-'' # ds))"
    by (rule coerce_dependency_None_iff)
  show "coerce_dependencies
         (map (\<lambda>x. case x of Inl k \<Rightarrow> JNum k | Inr k \<Rightarrow> JStr (show_int k)) mixed) =
       map (\<lambda>x. JNum (case x of Inl k \<Rightarrow> k | Inr k \<Rightarrow> k)) mixed"
    by (rule coerce_mixed)
  show "coerce_dependencies (before @ d # after) =
       coerce_dependencies before @
       (case coerce_dependency d of None \<Rightarrow> [] | Some k \<Rightarrow> [JNum k]) @
       coerce_dependencies after"
    by (simp add: coerce_append coerce_Cons split: option.splits)
  have same: "(\<lambda>d. (\<forall>k. d \<noteq> JNum k)
                  \<and> (\<forall>ds. ds \<noteq> [] \<and> list_all is_digit ds \<longrightarrow>
                          d \<noteq> JStr ds \<and> d \<noteq> JStr (CHR ''-'' # ds)))
              = (\<lambda>d. coerce_dependency d = None)"
    by (rule ext) (simp only: coerce_dependency_None_iff)
  show "length (coerce_dependencies deps) =
       length deps -
       length (filter (\<lambda>d. (\<forall>k. d \<noteq> JNum k)
                          \<and> (\<forall>ds. ds \<noteq> [] \<and> list_all is_digit ds \<longrightarrow>
                                  d \<noteq> JStr ds \<and> d \<noteq> JStr (CHR ''-'' # ds))) deps)"
    unfolding same by (rule coerce_length)
  show "coerce_dependencies (coerce_dependencies deps) = coerce_dependencies deps"
    by (simp add: coerce_dependencies_def map_filter_coerced)
  show "coerce_dependencies (map JNum ns) = map JNum ns"
    by (simp add: coerce_dependencies_def map_filter_coerced)
next
  assume "digits \<noteq> [] \<and> list_all is_digit digits"
  then show "coerce_dependency (JStr digits) = Some (int (digits_value digits))"
    and "coerce_dependency (JStr (CHR ''-'' # digits)) = Some (- int (digits_value digits))"
    using parse_decimal_digits [of digits] by simp_all
next
  assume "map_of entries ''dependencies'' = Some (JArr deps)"
  then show "\<exists>es. normalize_subtask startId parentTaskId index entries = JObj es
              \<and> map_of es ''dependencies'' = Some (JArr (coerce_dependencies deps))"
    by (simp add: normalize_subtask_def Let_def update_conv')
qed

theorem coerce_dependencies_idempotent_total_witness:
  "coerce_dependencies [JNum 2, JStr ''1'', JStr ''abc'', JNull, JStr ''-30'', JStr ''007''] =
     [JNum 2, JNum 1, JNum (- 30), JNum 7]
   \<and> coerce_dependencies [JNum 2, JNum 1, JNum (- 30), JNum 7] =
     [JNum 2, JNum 1, JNum (- 30), JNum 7]
   \<and> coerce_dependency (JStr ''12'') = Some 12
   \<and> coerce_dependency (JStr ''007'') = Some 7
   \<and> coerce_dependency (JStr ''-007'') = Some (- 7)
   \<and> coerce_dependency (JStr ''1.5'') = None
   \<and> length (coerce_dependencies [JNum 2, JStr ''1'', JStr ''abc'', JNull, JStr ''-30'', JStr ''007'']) = 6 - 2
   \<and> (\<exists>es. normalize_subtask 1 (JNum 5) 1
               [(''id'', JNum 20), (''dependencies'', JArr [JStr ''1'', JStr ''abc''])] = JObj es
          \<and> map_of es ''dependencies'' = Some (JArr [JNum 1]))"
proof -
  let ?deps = "[JNum 2, JStr ''1'', JStr ''abc'', JNull, JStr ''-30'', JStr ''007'']"
  note inst = coerce_dependencies_idempotent_total
    [where deps = ?deps and n = 12 and digits = "''007''" and d = "JStr ''1.5''" and m = 7
       and mixed = "[]" and before = "[]" and after = "[]" and ns = "[]"
       and entries = "[(''id'', JNum 20), (''dependencies'', JArr ?deps)]"
       and startId = 1 and parentTaskId = "JNum 5" and index = 1]
  have once: "coerce_dependencies ?deps = [JNum 2, JNum 1, JNum (- 30), JNum 7]"
    by code_simp
  have texts: "show_int 12 = ''12''" "list_all is_digit ''007''" "digits_value ''007'' = 7"
    by code_simp+
  from inst have "coerce_dependencies (coerce_dependencies ?deps) = coerce_dependencies ?deps"
    by blast
  with once have again: "coerce_dependencies [JNum 2, JNum 1, JNum (- 30), JNum 7] =
     [JNum 2, JNum 1, JNum (- 30), JNum 7]"
    by simp
  from inst have "coerce_dependency (JStr (show_int 12)) = Some 12"
    by blast
  then have twelve: "coerce_dependency (JStr ''12'') = Some 12"
    by (simp only: texts)
  from inst texts have zeros: "coerce_dependency (JStr ''007'') = Some 7"
    "coerce_dependency (JStr ''-007'') = Some (- 7)"
    by simp_all
  have frac: "coerce_dependency (JStr ''1.5'') = None"
    by code_simp
  from once have len: "length (coerce_dependencies ?deps) = 6 - 2"
    by simp
  note inst2 = coerce_dependencies_idempotent_total
    [where deps = "[JStr ''1'', JStr ''abc'']" and digits = "''1''" and d = JNull
       and mixed = "[]" and before = "[]" and after = "[]" and ns = "[]"
       and entries = "[(''id'', JNum 20), (''dependencies'', JArr [JStr ''1'', JStr ''abc''])]"
       and startId = 1 and parentTaskId = "JNum 5" and index = 1]
  have two: "coerce_dependencies [JStr ''1'', JStr ''abc''] = [JNum 1]"
    by code_simp
  from inst2 have "\<exists>es. normalize_subtask 1 (JNum 5) 1
               [(''id'', JNum 20), (''dependencies'', JArr [JStr ''1'', JStr ''abc''])] = JObj es
          \<and> map_of es ''dependencies'' = Some (JArr (coerce_dependencies [JStr ''1'', JStr ''abc'']))"
    by simp
  with two have parsed: "\<exists>es. normalize_subtask 1 (JNum 5) 1
               [(''id'', JNum 20), (''dependencies'', JArr [JStr ''1'', JStr ''abc''])] = JObj es
          \<and> map_of es ''dependencies'' = Some (JArr [JNum 1])"
    by simp
  from once again twelve zeros frac len parsed show ?thesis
    by blast
qed

end
